theory Spec2Isabelle
  imports Complex_Main
begin

section \<open>Data model of the editor store (src/stores/editorStore.ts)\<close>

text \<open>
  JavaScript numbers are modelled as real numbers: the store only adds, subtracts, compares
  and divides them, and the properties below are the exact-arithmetic readings of the
  code (no rounding, no NaN, no infinities; the one division whose divisor can be zero,
  in \<open>getSnappedTime\<close>, is written out by cases).
  A value that can be \<open>undefined\<close> at run time is an \<open>option\<close> with \<open>None\<close> for
  \<open>undefined\<close>. The store is a record that every action takes and returns.
\<close>

datatype TrackType = Video | Audio | Text

text \<open>The JSON-representable values held by the type-specific properties of a clip.\<close>

datatype jsval =
    JNull
  | JBool bool
  | JNum real
  | JStr string
  | JArr "jsval list"
  | JObj "(string \<times> jsval) list"

type_synonym props = "(string \<times> jsval) list"

text \<open>
  \<open>BaseClip\<close> with the \<open>type\<close> tag of the union; the fields of \<open>VideoClip\<close>,
  \<open>AudioClip\<close> and \<open>TextClip\<close> beyond the base ones are the own properties \<open>props\<close>,
  in insertion order. \<open>cid\<close> is the field \<open>id\<close>: it is \<open>None\<close> when the property holds
  \<open>undefined\<close>.
\<close>

record clip =
  cid :: "string option"
  trackId :: string
  startTime :: real
  endTime :: real
  sourceStartTime :: real
  duration :: real
  isSelected :: bool
  ctype :: TrackType
  props :: props

text \<open>
  \<open>Partial<Clip>\<close>: every property may be absent (\<open>None\<close>). The property \<open>id\<close> may
  also be present and hold \<open>undefined\<close> (\<open>Some None\<close>), as \<open>pasteClips\<close> and
  \<open>duplicateSelectedClips\<close> pass it.
\<close>

record partial_clip =
  p_id :: "string option option"
  p_trackId :: "string option"
  p_startTime :: "real option"
  p_endTime :: "real option"
  p_sourceStartTime :: "real option"
  p_duration :: "real option"
  p_isSelected :: "bool option"
  p_type :: "TrackType option"
  p_props :: props

record track =
  tid :: string
  ttype :: TrackType
  tname :: string
  torder :: nat
  isLocked :: bool
  isVisible :: bool
  tmuted :: bool
  clips :: "clip list"

record HistoryState =
  h_tracks :: "track list"
  h_selectedClipIds :: "string option list"

text \<open>
  The refs of the store. \<open>st_duration\<close> is the ref \<open>duration\<close> (the media length);
  the host objects \<open>videoFile\<close> and \<open>videoElement\<close> are left out.
\<close>

record store =
  projectName :: string
  projectDuration :: real
  aspectRatio :: string
  videoUrl :: string
  isPlaying :: bool
  currentTime :: real
  st_duration :: real
  tracks :: "track list"
  selectedClipIds :: "string option list"
  selectedTrackId :: "string option"
  timelineZoom :: real
  timelineScrollX :: real
  isSnappingEnabled :: bool
  snapThreshold :: real
  clipboard :: "clip list"
  history :: "HistoryState list"
  historyIndex :: int

datatype error = TypeError

definition maxHistorySize :: nat where
  "maxHistorySize = 50"

section \<open>JavaScript helpers\<close>

text \<open>\<open>a || b\<close> for a number \<open>a\<close> that may be \<open>undefined\<close>: 0 and \<open>undefined\<close> are falsy.\<close>

definition num_or :: "real option \<Rightarrow> real \<Rightarrow> real" where
  "num_or a b = (case a of None \<Rightarrow> b | Some v \<Rightarrow> if v = 0 then b else v)"

definition truthy :: "jsval \<Rightarrow> bool" where
  "truthy v = (case v of JNull \<Rightarrow> False | JBool b \<Rightarrow> b | JNum x \<Rightarrow> x \<noteq> 0
                | JStr s \<Rightarrow> s \<noteq> [] | JArr _ \<Rightarrow> True | JObj _ \<Rightarrow> True)"

definition js_or :: "jsval option \<Rightarrow> jsval \<Rightarrow> jsval" where
  "js_or a b = (case a of None \<Rightarrow> b | Some v \<Rightarrow> if truthy v then v else b)"

text \<open>Writing one own property: an existing key keeps its place, a new key goes last.\<close>

fun setProp :: "string \<Rightarrow> jsval \<Rightarrow> props \<Rightarrow> props" where
  "setProp k v [] = [(k, v)]"
| "setProp k v ((k', v') # ps) = (if k = k' then (k, v) # ps else (k', v') # setProp k v ps)"

definition assignProps :: "props \<Rightarrow> props \<Rightarrow> props" where
  "assignProps base upd = fold (\<lambda>(k, v) acc. setProp k v acc) upd base"

text \<open>\<open>Object.assign(clip, updates)\<close>, and the spread \<open>{...clip, ...updates}\<close>.\<close>

definition assign :: "clip \<Rightarrow> partial_clip \<Rightarrow> clip" where
  "assign c p =
     \<lparr> cid = (case p_id p of None \<Rightarrow> cid c | Some v \<Rightarrow> v),
       trackId = (case p_trackId p of None \<Rightarrow> trackId c | Some v \<Rightarrow> v),
       startTime = (case p_startTime p of None \<Rightarrow> startTime c | Some v \<Rightarrow> v),
       endTime = (case p_endTime p of None \<Rightarrow> endTime c | Some v \<Rightarrow> v),
       sourceStartTime = (case p_sourceStartTime p of None \<Rightarrow> sourceStartTime c | Some v \<Rightarrow> v),
       duration = (case p_duration p of None \<Rightarrow> duration c | Some v \<Rightarrow> v),
       isSelected = (case p_isSelected p of None \<Rightarrow> isSelected c | Some v \<Rightarrow> v),
       ctype = (case p_type p of None \<Rightarrow> ctype c | Some v \<Rightarrow> v),
       props = assignProps (props c) (p_props p) \<rparr>"

text \<open>The spread \<open>{...clip}\<close> of a whole clip, as a \<open>Partial<Clip>\<close>.\<close>

definition spread :: "clip \<Rightarrow> partial_clip" where
  "spread c =
     \<lparr> p_id = Some (cid c), p_trackId = Some (trackId c), p_startTime = Some (startTime c),
       p_endTime = Some (endTime c), p_sourceStartTime = Some (sourceStartTime c),
       p_duration = Some (duration c), p_isSelected = Some (isSelected c),
       p_type = Some (ctype c), p_props = props c \<rparr>"

text \<open>\<open>Array.prototype.findIndex\<close>; \<open>None\<close> is the result -1.\<close>

fun findIndex :: "('a \<Rightarrow> bool) \<Rightarrow> 'a list \<Rightarrow> nat option" where
  "findIndex P [] = None"
| "findIndex P (x # xs) = (if P x then Some 0 else map_option Suc (findIndex P xs))"

text \<open>\<open>xs.slice(0, n)\<close>: a negative \<open>n\<close> counts from the end.\<close>

definition slice0 :: "'a list \<Rightarrow> int \<Rightarrow> 'a list" where
  "slice0 xs n = (if n < 0 then take (nat (int (length xs) + n)) xs else take (nat n) xs)"

text \<open>\<open>xs[i]\<close>: \<open>undefined\<close> out of range.\<close>

definition index :: "'a list \<Rightarrow> int \<Rightarrow> 'a option" where
  "index xs i = (if 0 \<le> i \<and> nat i < length xs then Some (xs ! nat i) else None)"

text \<open>
  \<open>JSON.parse(JSON.stringify(x))\<close> builds a structurally equal value that shares nothing
  with \<open>x\<close>. Values of the model share nothing, so the copy is the value itself (an
  \<open>id\<close> holding \<open>undefined\<close> is dropped by the copy and reads as \<open>undefined\<close> again).
\<close>

definition deepCopy :: "'a \<Rightarrow> 'a" where
  "deepCopy x = x"

section \<open>Lookup\<close>

fun getClipById :: "string option \<Rightarrow> track list \<Rightarrow> clip option" where
  "getClipById clipId [] = None"
| "getClipById clipId (t # ts) =
     (case find (\<lambda>c. cid c = clipId) (clips t) of
        Some c \<Rightarrow> Some c
      | None \<Rightarrow> getClipById clipId ts)"

definition hasClip :: "string option \<Rightarrow> track \<Rightarrow> bool" where
  "hasClip clipId t = (\<exists>c \<in> set (clips t). cid c = clipId)"

fun getTrackByClipId :: "string option \<Rightarrow> track list \<Rightarrow> track option" where
  "getTrackByClipId clipId [] = None"
| "getTrackByClipId clipId (t # ts) =
     (if hasClip clipId t then Some t else getTrackByClipId clipId ts)"

text \<open>
  A write through the reference that \<open>getClipById\<close> returns: the first clip with the id,
  on the first track that has one, is replaced by its image under \<open>f\<close>. An action that
  assigns to fields of the clip \<open>clip\<close> it looked up writes \<open>\<lambda>_. clip'\<close>, with \<open>clip'\<close>
  the clip after the assignments.
\<close>

fun modifyFirst :: "('a \<Rightarrow> bool) \<Rightarrow> ('a \<Rightarrow> 'a) \<Rightarrow> 'a list \<Rightarrow> 'a list" where
  "modifyFirst P f [] = []"
| "modifyFirst P f (x # xs) = (if P x then f x # xs else x # modifyFirst P f xs)"

definition modifyClipById :: "string option \<Rightarrow> (clip \<Rightarrow> clip) \<Rightarrow> track list \<Rightarrow> track list" where
  "modifyClipById clipId f ts =
     modifyFirst (hasClip clipId)
       (\<lambda>t. t\<lparr>clips := modifyFirst (\<lambda>c. cid c = clipId) f (clips t)\<rparr>) ts"

text \<open>\<open>xs.splice(i, 1)\<close> at the index that \<open>findIndex\<close> gives, when there is one.\<close>

fun removeFirst :: "('a \<Rightarrow> bool) \<Rightarrow> 'a list \<Rightarrow> 'a list" where
  "removeFirst P [] = []"
| "removeFirst P (x # xs) = (if P x then xs else x # removeFirst P xs)"

text \<open>\<open>xs.splice(i, 0, x)\<close> for an index \<open>i\<close> that is not negative.\<close>

definition spliceInsert :: "nat \<Rightarrow> 'a \<Rightarrow> 'a list \<Rightarrow> 'a list" where
  "spliceInsert i x xs = take i xs @ [x] @ drop i xs"

definition allClips :: "track list \<Rightarrow> clip list" where
  "allClips ts = concat (map clips ts)"

definition updateProjectDuration :: "store \<Rightarrow> store" where
  "updateProjectDuration s =
     (let maxEnd = fold (\<lambda>c m. if endTime c > m then endTime c else m) (allClips (tracks s)) 0;
          s1 = s\<lparr>projectDuration := maxEnd\<rparr>
      in if maxEnd > st_duration s1 then s1\<lparr>st_duration := maxEnd\<rparr> else s1)"

section \<open>History\<close>

definition saveHistory :: "store \<Rightarrow> store" where
  "saveHistory s =
     (let h = slice0 (history s) (historyIndex s + 1) @
                [\<lparr> h_tracks = deepCopy (tracks s), h_selectedClipIds = selectedClipIds s \<rparr>]
      in if length h > maxHistorySize
         then s\<lparr>history := tl h\<rparr>
         else s\<lparr>history := h, historyIndex := historyIndex s + 1\<rparr>)"

text \<open>
  \<open>undo\<close> and \<open>redo\<close> return the exception raised, if any, with the store as the
  statements before the exception left it: reading \<open>state.tracks\<close> of an entry that does
  not exist is a TypeError, after the index has moved.
\<close>

definition undo :: "store \<Rightarrow> error option \<times> store" where
  "undo s =
     (if historyIndex s > 0 then
        (let s1 = s\<lparr>historyIndex := historyIndex s - 1\<rparr>
         in case index (history s1) (historyIndex s1) of
              None \<Rightarrow> (Some TypeError, s1)
            | Some state \<Rightarrow>
                (None, s1\<lparr>tracks := deepCopy (h_tracks state),
                          selectedClipIds := h_selectedClipIds state\<rparr>))
      else (None, s))"

definition redo :: "store \<Rightarrow> error option \<times> store" where
  "redo s =
     (if historyIndex s < int (length (history s)) - 1 then
        (let s1 = s\<lparr>historyIndex := historyIndex s + 1\<rparr>
         in case index (history s1) (historyIndex s1) of
              None \<Rightarrow> (Some TypeError, s1)
            | Some state \<Rightarrow>
                (None, s1\<lparr>tracks := deepCopy (h_tracks state),
                          selectedClipIds := h_selectedClipIds state\<rparr>))
      else (None, s))"

section \<open>Trimming\<close>

definition trimClipStart :: "string option \<Rightarrow> real \<Rightarrow> store \<Rightarrow> store" where
  "trimClipStart clipId newStartTime s =
     (case getClipById clipId (tracks s) of
        None \<Rightarrow> s
      | Some clip \<Rightarrow>
          (let minStart = 0;
               maxStart = endTime clip - 1 / 10;
               newStartTime' = max minStart (min maxStart newStartTime);
               deltaTime = newStartTime' - startTime clip;
               clip' = clip\<lparr>startTime := newStartTime',
                            sourceStartTime := num_or (Some (sourceStartTime clip)) 0 + deltaTime,
                            duration := endTime clip - newStartTime'\<rparr>
           in s\<lparr>tracks := modifyClipById clipId (\<lambda>_. clip') (tracks s)\<rparr>))"

definition trimClipEnd :: "string option \<Rightarrow> real \<Rightarrow> store \<Rightarrow> store" where
  "trimClipEnd clipId newEndTime s =
     (case getClipById clipId (tracks s) of
        None \<Rightarrow> s
      | Some clip \<Rightarrow>
          (let minEnd = startTime clip + 1 / 10;
               newEndTime' = max minEnd newEndTime;
               clip' = clip\<lparr>endTime := newEndTime', duration := newEndTime' - startTime clip\<rparr>
           in updateProjectDuration
                (s\<lparr>tracks := modifyClipById clipId (\<lambda>_. clip') (tracks s)\<rparr>)))"

section \<open>Clip actions\<close>

text \<open>
  \<open>generateId\<close> reads the clock and the random number generator. Its result is an
  argument of the actions that call it (\<open>gid\<close>, or \<open>gen k\<close> for the call made in the
  \<open>k\<close>-th iteration of a loop), so that every theorem holds for whatever it returns.
\<close>

text \<open>The default text of a text clip, as UTF-8 bytes.\<close>

definition defaultText :: string where
  "defaultText =
     [CHR 0xED, CHR 0x85, CHR 0x8D, CHR 0xEC, CHR 0x8A, CHR 0xA4, CHR 0xED, CHR 0x8A, CHR 0xB8,
      CHR 0xEB, CHR 0xA5, CHR 0xBC, CHR 0x20, CHR 0xEC, CHR 0x9E, CHR 0x85, CHR 0xEB, CHR 0xA0,
      CHR 0xA5, CHR 0xED, CHR 0x95, CHR 0x98, CHR 0xEC, CHR 0x84, CHR 0xB8, CHR 0xEC, CHR 0x9A,
      CHR 0x94]"

text \<open>The type-specific properties that \<open>addClip\<close> writes before it spreads \<open>clipData\<close>.\<close>

definition defaultProps :: "TrackType \<Rightarrow> partial_clip \<Rightarrow> props" where
  "defaultProps ty clipData =
     (case ty of
        Video \<Rightarrow>
          [(''src'', js_or (map_of (p_props clipData) ''src'') (JStr '''')),
           (''fileName'', js_or (map_of (p_props clipData) ''fileName'') (JStr ''video'')),
           (''originalDuration'', js_or (map_of (p_props clipData) ''originalDuration'') (JNum 0)),
           (''x'', JNum 0), (''y'', JNum 0), (''scale'', JNum 1), (''rotation'', JNum 0),
           (''flipX'', JBool False), (''flipY'', JBool False),
           (''speed'', JNum 1), (''opacity'', JNum 1),
           (''filters'', JObj [(''brightness'', JNum 0), (''contrast'', JNum 0),
              (''saturation'', JNum 0), (''temperature'', JNum 0), (''hue'', JNum 0),
              (''blur'', JNum 0), (''preset'', JStr ''none'')])]
      | Audio \<Rightarrow>
          [(''src'', js_or (map_of (p_props clipData) ''src'') (JStr '''')),
           (''fileName'', js_or (map_of (p_props clipData) ''fileName'') (JStr ''audio'')),
           (''originalDuration'', js_or (map_of (p_props clipData) ''originalDuration'') (JNum 0)),
           (''volume'', JNum 1), (''fadeIn'', JNum 0), (''fadeOut'', JNum 0),
           (''isMuted'', JBool False)]
      | Text \<Rightarrow>
          [(''text'', js_or (map_of (p_props clipData) ''text'') (JStr defaultText)),
           (''x'', JNum 100), (''y'', JNum 100), (''fontSize'', JNum 32),
           (''fontFamily'', JStr ''Arial''), (''color'', JStr ''#ffffff''),
           (''backgroundColor'', JStr ''transparent''), (''backgroundOpacity'', JNum 0),
           (''textAlign'', JStr ''center''), (''bold'', JBool False), (''italic'', JBool False),
           (''shadow'', JBool False), (''outline'', JBool True),
           (''outlineColor'', JStr ''#000000''), (''outlineWidth'', JNum 2),
           (''animationIn'', JObj [(''type'', JStr ''none''), (''duration'', JNum (3 / 10))]),
           (''animationOut'', JObj [(''type'', JStr ''none''), (''duration'', JNum (3 / 10))])])"

definition addClip :: "string \<Rightarrow> string \<Rightarrow> partial_clip \<Rightarrow> store \<Rightarrow> clip option \<times> store" where
  "addClip gid trackId' clipData s =
     (case find (\<lambda>t. tid t = trackId') (tracks s) of
        None \<Rightarrow> (None, s)
      | Some track \<Rightarrow>
          (let baseClip =
                 \<lparr> cid = Some gid,
                   trackId = trackId',
                   startTime = num_or (p_startTime clipData) (currentTime s),
                   endTime = num_or (p_endTime clipData) (currentTime s + 5),
                   sourceStartTime = num_or (p_sourceStartTime clipData) 0,
                   duration = num_or (p_duration clipData) 5,
                   isSelected = False,
                   ctype = (case ttype track of Video \<Rightarrow> Video | Audio \<Rightarrow> Audio | Text \<Rightarrow> Text),
                   props = defaultProps (ttype track) clipData \<rparr>;
               newClip = assign baseClip clipData;
               s1 = s\<lparr>tracks := modifyFirst (\<lambda>t. tid t = trackId')
                                   (\<lambda>t. t\<lparr>clips := clips t @ [newClip]\<rparr>) (tracks s)\<rparr>
           in (Some newClip, saveHistory (updateProjectDuration s1))))"

definition removeClip :: "string option \<Rightarrow> store \<Rightarrow> store" where
  "removeClip clipId s =
     (if \<exists>t \<in> set (tracks s). hasClip clipId t then
        (let s1 = s\<lparr>tracks := modifyFirst (hasClip clipId)
                      (\<lambda>t. t\<lparr>clips := removeFirst (\<lambda>c. cid c = clipId) (clips t)\<rparr>) (tracks s)\<rparr>;
             s2 = s1\<lparr>selectedClipIds := remove1 clipId (selectedClipIds s1)\<rparr>
         in saveHistory (updateProjectDuration s2))
      else s)"

definition updateClip :: "string option \<Rightarrow> partial_clip \<Rightarrow> store \<Rightarrow> store" where
  "updateClip clipId updates s =
     (case getClipById clipId (tracks s) of
        None \<Rightarrow> s
      | Some clip \<Rightarrow>
          updateProjectDuration
            (s\<lparr>tracks := modifyClipById clipId (\<lambda>_. assign clip updates) (tracks s)\<rparr>))"

definition splitClip ::
  "string \<Rightarrow> string option \<Rightarrow> real \<Rightarrow> store \<Rightarrow> (clip \<times> clip) option \<times> store" where
  "splitClip gid clipId splitTime s =
     (case (getClipById clipId (tracks s), getTrackByClipId clipId (tracks s)) of
        (Some clip, Some track) \<Rightarrow>
          if splitTime \<le> startTime clip \<or> splitTime \<ge> endTime clip then (None, s)
          else
            (let clipIndex = findIndex (\<lambda>c. cid c = clipId) (clips track);
                 firstDuration = splitTime - startTime clip;
                 originalEndTime = endTime clip;
                 clip' = clip\<lparr>endTime := splitTime, duration := firstDuration\<rparr>;
                 secondClip = (deepCopy clip')
                   \<lparr>cid := Some gid,
                    startTime := splitTime,
                    endTime := originalEndTime,
                    duration := originalEndTime - splitTime,
                    sourceStartTime := num_or (Some (sourceStartTime clip')) 0 + firstDuration,
                    isSelected := False\<rparr>;
                 s1 = s\<lparr>tracks := modifyFirst (hasClip clipId)
                        (\<lambda>t. t\<lparr>clips :=
                            spliceInsert (case clipIndex of None \<Rightarrow> 0 | Some i \<Rightarrow> i + 1) secondClip
                              (modifyFirst (\<lambda>c. cid c = clipId) (\<lambda>_. clip') (clips t))\<rparr>)
                        (tracks s)\<rparr>
             in (Some (clip', secondClip), saveHistory s1))
      | _ \<Rightarrow> (None, s))"

section \<open>Moving and snapping\<close>

text \<open>
  \<open>Math.abs(time - point) < thresholdSeconds\<close> with
  \<open>thresholdSeconds = snapThreshold / (100 * timelineZoom)\<close>. A zero divisor gives an
  infinite threshold for a positive \<open>snapThreshold\<close> (every point is near) and a threshold
  that no distance is below otherwise.
\<close>

definition nearPoint :: "store \<Rightarrow> real \<Rightarrow> real \<Rightarrow> bool" where
  "nearPoint s time point =
     (let pixelsPerSecond = 100 * timelineZoom s
      in if pixelsPerSecond = 0 then snapThreshold s > 0
         else \<bar>time - point\<bar> < snapThreshold s / pixelsPerSecond)"

definition snapPoints :: "string option \<Rightarrow> store \<Rightarrow> real list" where
  "snapPoints excludeClipId s =
     [0, currentTime s] @
     concat (map (\<lambda>c. [startTime c, endTime c])
               (filter (\<lambda>c. cid c \<noteq> excludeClipId) (allClips (tracks s))))"

definition getSnappedTime :: "real \<Rightarrow> string option \<Rightarrow> store \<Rightarrow> real" where
  "getSnappedTime time excludeClipId s =
     (case find (nearPoint s time) (snapPoints excludeClipId s) of
        Some point \<Rightarrow> point
      | None \<Rightarrow> time)"

definition moveClip :: "string option \<Rightarrow> real \<Rightarrow> string option \<Rightarrow> store \<Rightarrow> store" where
  "moveClip clipId newStartTime newTrackId s =
     (case (getClipById clipId (tracks s), getTrackByClipId clipId (tracks s)) of
        (Some clip, Some currentTrack) \<Rightarrow>
          (let clipDuration = endTime clip - startTime clip;
               newStartTime' = (if isSnappingEnabled s
                                then getSnappedTime newStartTime clipId s else newStartTime);
               start' = max 0 newStartTime';
               clip' = clip\<lparr>startTime := start', endTime := start' + clipDuration\<rparr>;
               ts1 = modifyClipById clipId (\<lambda>_. clip') (tracks s);
               ts2 = (case newTrackId of
                        None \<Rightarrow> ts1
                      | Some nt \<Rightarrow>
                          if nt \<noteq> [] \<and> nt \<noteq> tid currentTrack then
                            (case find (\<lambda>t. tid t = nt) ts1 of
                               None \<Rightarrow> ts1
                             | Some newTrack \<Rightarrow>
                                 if ttype newTrack = ttype currentTrack then
                                   modifyFirst (\<lambda>t. tid t = nt)
                                     (\<lambda>t. t\<lparr>clips := clips t @ [clip'\<lparr>trackId := nt\<rparr>]\<rparr>)
                                     (modifyFirst (hasClip clipId)
                                        (\<lambda>t. t\<lparr>clips := removeFirst (\<lambda>c. cid c = clipId) (clips t)\<rparr>)
                                        ts1)
                                 else ts1)
                          else ts1)
           in updateProjectDuration (s\<lparr>tracks := ts2\<rparr>))
      | _ \<Rightarrow> s)"

section \<open>Selection\<close>

definition clearFlags :: "track list \<Rightarrow> track list" where
  "clearFlags ts = map (\<lambda>t. t\<lparr>clips := map (\<lambda>c. c\<lparr>isSelected := False\<rparr>) (clips t)\<rparr>) ts"

definition selectClip :: "string option \<Rightarrow> bool \<Rightarrow> store \<Rightarrow> store" where
  "selectClip clipId addToSelection s =
     (let s1 = (if \<not> addToSelection
                then s\<lparr>tracks := clearFlags (tracks s), selectedClipIds := []\<rparr> else s)
      in case getClipById clipId (tracks s1) of
           None \<Rightarrow> s1
         | Some clip \<Rightarrow>
             s1\<lparr>tracks := modifyClipById clipId (\<lambda>_. clip\<lparr>isSelected := True\<rparr>) (tracks s1),
                selectedClipIds := (if clipId \<in> set (selectedClipIds s1) then selectedClipIds s1
                                    else selectedClipIds s1 @ [clipId])\<rparr>)"

definition deselectClip :: "string option \<Rightarrow> store \<Rightarrow> store" where
  "deselectClip clipId s =
     (case getClipById clipId (tracks s) of
        None \<Rightarrow> s
      | Some clip \<Rightarrow>
          s\<lparr>tracks := modifyClipById clipId (\<lambda>_. clip\<lparr>isSelected := False\<rparr>) (tracks s),
            selectedClipIds := remove1 clipId (selectedClipIds s)\<rparr>)"

definition deselectAll :: "store \<Rightarrow> store" where
  "deselectAll s =
     s\<lparr>tracks := clearFlags (tracks s), selectedClipIds := [], selectedTrackId := None\<rparr>"

definition selectAllClips :: "store \<Rightarrow> store" where
  "selectAllClips s =
     s\<lparr>tracks := map (\<lambda>t. t\<lparr>clips := map (\<lambda>c. c\<lparr>isSelected := True\<rparr>) (clips t)\<rparr>) (tracks s),
       selectedClipIds := fold (\<lambda>c sel. if cid c \<in> set sel then sel else sel @ [cid c])
                            (allClips (tracks s)) (selectedClipIds s)\<rparr>"

definition removeTrack :: "string \<Rightarrow> store \<Rightarrow> store" where
  "removeTrack trackId' s =
     (case find (\<lambda>t. tid t = trackId') (tracks s) of
        None \<Rightarrow> s
      | Some t \<Rightarrow>
          saveHistory
            (s\<lparr>selectedClipIds := fold (\<lambda>c sel. remove1 (cid c) sel) (clips t) (selectedClipIds s),
               tracks := removeFirst (\<lambda>t. tid t = trackId') (tracks s)\<rparr>))"

section \<open>Clipboard\<close>

text \<open>
  The computed \<open>selectedClips\<close> holds references to the clips of the tracks. A reference
  is the position of the clip: the index of its track and its index on the track. The
  actions below only append clips and write fields in place while they hold such
  references, so a position keeps naming the same clip.
\<close>

definition clipPositions :: "track list \<Rightarrow> (nat \<times> nat) list" where
  "clipPositions ts =
     concat (map (\<lambda>i. map (\<lambda>j. (i, j)) [0..<length (clips (ts ! i))]) [0..<length ts])"

definition clipAt :: "track list \<Rightarrow> nat \<times> nat \<Rightarrow> clip option" where
  "clipAt ts pos =
     (if fst pos < length ts \<and> snd pos < length (clips (ts ! fst pos))
      then Some (clips (ts ! fst pos) ! snd pos) else None)"

definition selectedClips :: "store \<Rightarrow> clip list" where
  "selectedClips s = filter (\<lambda>c. cid c \<in> set (selectedClipIds s)) (allClips (tracks s))"

definition selectedPositions :: "store \<Rightarrow> (nat \<times> nat) list" where
  "selectedPositions s =
     filter (\<lambda>pos. case clipAt (tracks s) pos of
                     None \<Rightarrow> False
                   | Some c \<Rightarrow> cid c \<in> set (selectedClipIds s))
       (clipPositions (tracks s))"

definition copySelectedClips :: "store \<Rightarrow> store" where
  "copySelectedClips s = s\<lparr>clipboard := deepCopy (selectedClips s)\<rparr>"

text \<open>\<open>Math.min(...xs)\<close> of a list that is not empty.\<close>

fun minList :: "real list \<Rightarrow> real" where
  "minList [] = 0"
| "minList (x # xs) = fold min xs x"

text \<open>The body of the \<open>forEach\<close> of \<open>pasteClips\<close>, for the clips still to paste.\<close>

fun pasteLoop :: "(nat \<Rightarrow> string) \<Rightarrow> nat \<Rightarrow> real \<Rightarrow> real \<Rightarrow> clip list \<Rightarrow> store \<Rightarrow> store" where
  "pasteLoop gen k pasteTime minStartTime [] s = s"
| "pasteLoop gen k pasteTime minStartTime (clipData # rest) s =
     (case find (\<lambda>t. ttype t = ctype clipData) (tracks s) of
        None \<Rightarrow> pasteLoop gen (Suc k) pasteTime minStartTime rest s
      | Some track \<Rightarrow>
          if \<not> isLocked track then
            (let offset = startTime clipData - minStartTime
             in pasteLoop gen (Suc k) pasteTime minStartTime rest
                  (snd (addClip (gen k) (tid track)
                     ((spread clipData)
                        \<lparr>p_id := Some None,
                         p_startTime := Some (pasteTime + offset),
                         p_endTime := Some (pasteTime + offset + duration clipData),
                         p_isSelected := Some False\<rparr>) s)))
          else pasteLoop gen (Suc k) pasteTime minStartTime rest s)"

definition pasteClips :: "(nat \<Rightarrow> string) \<Rightarrow> store \<Rightarrow> store" where
  "pasteClips gen s =
     (if clipboard s = [] then s
      else
        (let pasteTime = currentTime s;
             minStartTime = minList (map startTime (clipboard s))
         in pasteLoop gen 0 pasteTime minStartTime (clipboard s) s))"

text \<open>The body of the \<open>forEach\<close> of \<open>duplicateSelectedClips\<close>, over the references.\<close>

fun duplicateLoop :: "(nat \<Rightarrow> string) \<Rightarrow> nat \<Rightarrow> (nat \<times> nat) list \<Rightarrow> store \<Rightarrow> store" where
  "duplicateLoop gen k [] s = s"
| "duplicateLoop gen k (pos # rest) s =
     (case clipAt (tracks s) pos of
        None \<Rightarrow> duplicateLoop gen (Suc k) rest s
      | Some clip \<Rightarrow>
          (case getTrackByClipId (cid clip) (tracks s) of
             None \<Rightarrow> duplicateLoop gen (Suc k) rest s
           | Some track \<Rightarrow>
               if \<not> isLocked track then
                 (case addClip (gen k) (tid track)
                         ((spread (deepCopy clip))
                            \<lparr>p_id := Some None,
                             p_startTime := Some (endTime clip),
                             p_endTime := Some (endTime clip + duration clip)\<rparr>) s of
                    (None, s1) \<Rightarrow> duplicateLoop gen (Suc k) rest s1
                  | (Some newClip, s1) \<Rightarrow>
                      duplicateLoop gen (Suc k) rest (selectClip (cid newClip) True s1))
               else duplicateLoop gen (Suc k) rest s))"

definition duplicateSelectedClips :: "(nat \<Rightarrow> string) \<Rightarrow> store \<Rightarrow> store" where
  "duplicateSelectedClips gen s = duplicateLoop gen 0 (selectedPositions s) (deselectAll s)"

section \<open>Text animation (animateTexts of the canvas component)\<close>

datatype AnimType = NoAnim | Fade | Slide | Scale | Typewriter

record TextAnimation =
  a_type :: AnimType
  a_duration :: real
  a_direction :: "string option"

text \<open>
  An entry of the computed \<open>textOverlays\<close>, with the properties that \<open>animateTexts\<close>
  reads; an animation may be missing.
\<close>

record overlay =
  o_id :: "string option"
  o_text :: string
  o_x :: real
  o_y :: real
  o_startTime :: real
  o_endTime :: real
  o_isSelected :: bool
  animationIn :: "TextAnimation option"
  animationOut :: "TextAnimation option"

text \<open>The properties of a text object on the canvas that \<open>animateTexts\<close> writes.\<close>

record textObj =
  visible :: bool
  alpha :: real
  pos_x :: real
  pos_y :: real
  scaleX :: real
  scaleY :: real
  content :: string

definition clamp01 :: "real \<Rightarrow> real" where
  "clamp01 progress = max 0 (min 1 progress)"

text \<open>Step 3, the entrance effect, on the values set in step 2.\<close>

definition applyIn :: "real \<Rightarrow> overlay \<Rightarrow> textObj \<Rightarrow> textObj" where
  "applyIn now ov st =
     (case animationIn ov of
        None \<Rightarrow> st
      | Some a \<Rightarrow>
          if a_type a \<noteq> NoAnim \<and> now - o_startTime ov < a_duration a then
            (let progress = (now - o_startTime ov) / a_duration a;
                 t = clamp01 progress
             in case a_type a of
                  Fade \<Rightarrow> st\<lparr>alpha := alpha st * t\<rparr>
                | Slide \<Rightarrow> st\<lparr>pos_y := pos_y st + (1 - t) * 50\<rparr>
                | Scale \<Rightarrow> st\<lparr>scaleX := t, scaleY := t\<rparr>
                | Typewriter \<Rightarrow>
                    st\<lparr>content := take (nat \<lfloor>real (length (content st)) * t\<rfloor>) (content st)\<rparr>
                | NoAnim \<Rightarrow> st)
          else st)"

text \<open>Step 4, the exit effect, on what step 3 left.\<close>

definition applyOut :: "real \<Rightarrow> overlay \<Rightarrow> textObj \<Rightarrow> textObj" where
  "applyOut now ov st =
     (case animationOut ov of
        None \<Rightarrow> st
      | Some a \<Rightarrow>
          (let remaining = o_endTime ov - now
           in if a_type a \<noteq> NoAnim \<and> remaining < a_duration a then
                (let progress = (a_duration a - remaining) / a_duration a;
                     t = clamp01 progress
                 in case a_type a of
                      Fade \<Rightarrow> st\<lparr>alpha := alpha st * (1 - t)\<rparr>
                    | Slide \<Rightarrow> st\<lparr>pos_y := pos_y st - t * 50\<rparr>
                    | Scale \<Rightarrow> st\<lparr>scaleX := 1 - t, scaleY := 1 - t\<rparr>
                    | _ \<Rightarrow> st)
              else st))"

text \<open>The body of the \<open>forEach\<close> for one text object and the overlay found for its id.\<close>

definition animateText :: "real \<Rightarrow> overlay option \<Rightarrow> textObj \<Rightarrow> textObj" where
  "animateText now overlay' textObj' =
     (case overlay' of
        None \<Rightarrow> textObj'\<lparr>visible := False\<rparr>
      | Some ov \<Rightarrow>
          if now < o_startTime ov \<or> now > o_endTime ov then textObj'\<lparr>visible := False\<rparr>
          else
            applyOut now ov
              (applyIn now ov
                 \<lparr> visible = True, alpha = (if o_isSelected ov then 1 else 1),
                   pos_x = o_x ov, pos_y = o_y ov, scaleX = 1, scaleY = 1,
                   content = o_text ov \<rparr>))"

text \<open>
  \<open>animateTexts\<close> over the text objects, keyed by id; \<open>new Map(entries)\<close> keeps the last
  entry of a key.
\<close>

definition animateTexts ::
  "real \<Rightarrow> overlay list \<Rightarrow> (string option \<times> textObj) list \<Rightarrow> (string option \<times> textObj) list" where
  "animateTexts now overlays textObjects =
     (let overlayMap = map_of (rev (map (\<lambda>t. (o_id t, t)) overlays))
      in map (\<lambda>(i, obj). (i, animateText now (overlayMap i) obj)) textObjects)"

section \<open>Sequences of actions\<close>

datatype edit =
    AddClip string string partial_clip
  | RemoveClip "string option"
  | UpdateClip "string option" partial_clip
  | SplitClip string "string option" real
  | MoveClip "string option" real "string option"
  | TrimClipStart "string option" real
  | TrimClipEnd "string option" real
  | SelectClip "string option" bool
  | DeselectClip "string option"
  | DeselectAll
  | SelectAllClips
  | RemoveTrack string
  | CopySelectedClips
  | PasteClips "nat \<Rightarrow> string"
  | DuplicateSelectedClips "nat \<Rightarrow> string"
  | Undo
  | Redo

text \<open>The store after one action; a value returned or an exception raised is dropped.\<close>

fun apply_edit :: "edit \<Rightarrow> store \<Rightarrow> store" where
  "apply_edit (AddClip gid trackId' clipData) s = snd (addClip gid trackId' clipData s)"
| "apply_edit (RemoveClip clipId) s = removeClip clipId s"
| "apply_edit (UpdateClip clipId updates) s = updateClip clipId updates s"
| "apply_edit (SplitClip gid clipId splitTime) s = snd (splitClip gid clipId splitTime s)"
| "apply_edit (MoveClip clipId newStartTime newTrackId) s = moveClip clipId newStartTime newTrackId s"
| "apply_edit (TrimClipStart clipId newStartTime) s = trimClipStart clipId newStartTime s"
| "apply_edit (TrimClipEnd clipId newEndTime) s = trimClipEnd clipId newEndTime s"
| "apply_edit (SelectClip clipId addToSelection) s = selectClip clipId addToSelection s"
| "apply_edit (DeselectClip clipId) s = deselectClip clipId s"
| "apply_edit DeselectAll s = deselectAll s"
| "apply_edit SelectAllClips s = selectAllClips s"
| "apply_edit (RemoveTrack trackId') s = removeTrack trackId' s"
| "apply_edit CopySelectedClips s = copySelectedClips s"
| "apply_edit (PasteClips gen) s = pasteClips gen s"
| "apply_edit (DuplicateSelectedClips gen) s = duplicateSelectedClips gen s"
| "apply_edit Undo s = snd (undo s)"
| "apply_edit Redo s = snd (redo s)"

fun run :: "edit list \<Rightarrow> store \<Rightarrow> store" where
  "run [] s = s"
| "run (e # es) s = run es (apply_edit e s)"

text \<open>\<open>undo\<close> and \<open>redo\<close> called \<open>n\<close> times, up to the first exception.\<close>

fun undoTimes :: "nat \<Rightarrow> store \<Rightarrow> error option \<times> store" where
  "undoTimes 0 s = (None, s)"
| "undoTimes (Suc n) s =
     (case undo s of (Some e, s') \<Rightarrow> (Some e, s') | (None, s') \<Rightarrow> undoTimes n s')"

fun redoTimes :: "nat \<Rightarrow> store \<Rightarrow> error option \<times> store" where
  "redoTimes 0 s = (None, s)"
| "redoTimes (Suc n) s =
     (case redo s of (Some e, s') \<Rightarrow> (Some e, s') | (None, s') \<Rightarrow> redoTimes n s')"

section \<open>Properties of states and actions\<close>

text \<open>The conditions on the times of a clip.\<close>

definition clip_ok :: "clip \<Rightarrow> bool" where
  "clip_ok c =
     (startTime c \<ge> 0 \<and> endTime c > startTime c \<and> duration c = endTime c - startTime c)"

definition tracks_ok :: "track list \<Rightarrow> bool" where
  "tracks_ok ts = (\<forall>t \<in> set ts. \<forall>c \<in> set (clips t). clip_ok c)"

text \<open>
  A valid state: the conditions hold for the clips on the tracks, for the clips on the
  clipboard and for the clips of the history entries, and the playhead is not before 0.
\<close>

definition state_ok :: "store \<Rightarrow> bool" where
  "state_ok s =
     (tracks_ok (tracks s) \<and> (\<forall>c \<in> set (clipboard s). clip_ok c) \<and>
      (\<forall>h \<in> set (history s). tracks_ok (h_tracks h)) \<and> currentTime s \<ge> 0)"

text \<open>
  What a caller of \<open>addClip\<close> or \<open>updateClip\<close> passes for the times: either none of
  \<open>startTime\<close>, \<open>endTime\<close> and \<open>duration\<close>, or all three, with a start that is not
  negative, an end after the start and the duration equal to end minus start.
\<close>

definition timesGiven_ok :: "partial_clip \<Rightarrow> bool" where
  "timesGiven_ok p =
     (case p_startTime p of
        None \<Rightarrow> p_endTime p = None \<and> p_duration p = None
      | Some a \<Rightarrow>
          (case p_endTime p of
             None \<Rightarrow> False
           | Some b \<Rightarrow>
               (case p_duration p of
                  None \<Rightarrow> False
                | Some d \<Rightarrow> 0 \<le> a \<and> a < b \<and> d = b - a)))"

fun times_input_ok :: "edit \<Rightarrow> bool" where
  "times_input_ok (AddClip gid trackId' clipData) = timesGiven_ok clipData"
| "times_input_ok (UpdateClip clipId updates) = timesGiven_ok updates"
| "times_input_ok _ = True"

text \<open>
  The calls that take one history snapshot: \<open>addClip\<close> on a track that exists,
  \<open>removeClip\<close> of a clip that exists, \<open>splitClip\<close> strictly inside a clip that exists,
  \<open>removeTrack\<close> of a track that exists.
\<close>

fun snapshots_once :: "edit \<Rightarrow> store \<Rightarrow> bool" where
  "snapshots_once (AddClip gid trackId' clipData) s = (\<exists>t \<in> set (tracks s). tid t = trackId')"
| "snapshots_once (RemoveClip clipId) s = (\<exists>t \<in> set (tracks s). hasClip clipId t)"
| "snapshots_once (SplitClip gid clipId splitTime) s =
     (case getClipById clipId (tracks s) of
        None \<Rightarrow> False
      | Some clip \<Rightarrow> startTime clip < splitTime \<and> splitTime < endTime clip)"
| "snapshots_once (RemoveTrack trackId') s = (\<exists>t \<in> set (tracks s). tid t = trackId')"
| "snapshots_once _ s = False"

fun run_snapshots :: "edit list \<Rightarrow> store \<Rightarrow> bool" where
  "run_snapshots [] s = True"
| "run_snapshots (e # es) s = (snapshots_once e s \<and> run_snapshots es (apply_edit e s))"

text \<open>The live tracks and selection are the history entry at the index.\<close>

definition synced :: "store \<Rightarrow> bool" where
  "synced s =
     (index (history s) (historyIndex s) =
        Some \<lparr> h_tracks = tracks s, h_selectedClipIds = selectedClipIds s \<rparr>)"

section \<open>Example states\<close>

text \<open>The store as its refs are initialised.\<close>

definition initialStore :: store where
  "initialStore =
     \<lparr> projectName = ''Untitled Project'', projectDuration = 0, aspectRatio = ''16:9'',
       videoUrl = [], isPlaying = False, currentTime = 0, st_duration = 0,
       tracks = [], selectedClipIds = [], selectedTrackId = None,
       timelineZoom = 1, timelineScrollX = 0, isSnappingEnabled = True, snapThreshold = 10,
       clipboard = [], history = [], historyIndex = - 1 \<rparr>"

text \<open>The object \<open>{}\<close>.\<close>

definition noData :: partial_clip where
  "noData =
     \<lparr> p_id = None, p_trackId = None, p_startTime = None, p_endTime = None,
       p_sourceStartTime = None, p_duration = None, p_isSelected = None, p_type = None,
       p_props = [] \<rparr>"

text \<open>A video clip on the track \<open>v1\<close>, with the properties \<open>addClip\<close> gives by default.\<close>

definition videoClip :: "string \<Rightarrow> real \<Rightarrow> real \<Rightarrow> bool \<Rightarrow> clip" where
  "videoClip i a b sel =
     \<lparr> cid = Some i, trackId = ''v1'', startTime = a, endTime = b, sourceStartTime = 0,
       duration = b - a, isSelected = sel, ctype = Video, props = defaultProps Video noData \<rparr>"

definition videoTrack :: "clip list \<Rightarrow> track" where
  "videoTrack cs =
     \<lparr> tid = ''v1'', ttype = Video, tname = ''Video 1'', torder = 0, isLocked = False,
       isVisible = True, tmuted = False, clips = cs \<rparr>"

text \<open>
  A store with one video track holding the given clips and the given selection. Its
  history holds the snapshot of the empty track, as \<open>addTrack\<close> takes it, and the
  snapshot of the present state, which the index points to.
\<close>

definition storeOf :: "clip list \<Rightarrow> string option list \<Rightarrow> store" where
  "storeOf cs sel =
     initialStore
       \<lparr> tracks := [videoTrack cs], selectedClipIds := sel,
         history := [\<lparr> h_tracks = [videoTrack []], h_selectedClipIds = [] \<rparr>,
                     \<lparr> h_tracks = [videoTrack cs], h_selectedClipIds = sel \<rparr>],
         historyIndex := 1 \<rparr>"

text \<open>A text overlay on [0, 1] that fades in and fades out, each over one second.\<close>

definition fadeOverlay :: overlay where
  "fadeOverlay =
     \<lparr> o_id = Some ''t'', o_text = ''hello'', o_x = 100, o_y = 100,
       o_startTime = 0, o_endTime = 1, o_isSelected = False,
       animationIn = Some \<lparr> a_type = Fade, a_duration = 1, a_direction = None \<rparr>,
       animationOut = Some \<lparr> a_type = Fade, a_duration = 1, a_direction = None \<rparr> \<rparr>"

definition someTextObj :: textObj where
  "someTextObj =
     \<lparr> visible = False, alpha = 1, pos_x = 0, pos_y = 0, scaleX = 1, scaleY = 1, content = [] \<rparr>"

text \<open>
  The clips [2, 5) and [5, 8) selected and copied with the playhead at 0, and the playhead
  then moved to 10.
\<close>

definition pasteStore :: store where
  "pasteStore =
     (copySelectedClips
        (storeOf [videoClip ''a'' 2 5 True, videoClip ''b'' 5 8 True] [Some ''a'', Some ''b'']))
       \<lparr>currentTime := 10\<rparr>"

text \<open>Two selected clips on an unlocked track.\<close>

definition duplicateStore :: store where
  "duplicateStore =
     storeOf [videoClip ''a'' 0 5 True, videoClip ''b'' 5 10 True] [Some ''a'', Some ''b'']"

section \<open>Auxiliary facts\<close>

subsection \<open>Lookup and write-through\<close>

lemma find_modifyFirst:
  "(\<And>x. P x \<Longrightarrow> P (f x)) \<Longrightarrow> find P (modifyFirst P f xs) = map_option f (find P xs)"
  by (induction xs) auto

lemma hasClip_find: "hasClip i t \<longleftrightarrow> find (\<lambda>c. cid c = i) (clips t) \<noteq> None"
  by (auto simp: hasClip_def find_None_iff)

lemma getClipById_modify:
  assumes "\<And>c. cid c = i \<Longrightarrow> cid (f c) = i"
  shows "getClipById i (modifyClipById i f ts) = map_option f (getClipById i ts)"
proof (induction ts)
  case Nil
  show ?case by (simp add: modifyClipById_def)
next
  case (Cons t ts)
  show ?case
  proof (cases "hasClip i t")
    case True
    then obtain c where c: "find (\<lambda>c. cid c = i) (clips t) = Some c"
      by (auto simp: hasClip_find)
    have "find (\<lambda>c. cid c = i) (modifyFirst (\<lambda>c. cid c = i) f (clips t)) = Some (f c)"
      using assms c by (simp add: find_modifyFirst)
    with True c show ?thesis by (simp add: modifyClipById_def)
  next
    case False
    then have "find (\<lambda>c. cid c = i) (clips t) = None"
      by (simp add: hasClip_find)
    with False Cons show ?thesis by (simp add: modifyClipById_def)
  qed
qed

lemma getClipById_cid: "getClipById i ts = Some c \<Longrightarrow> cid c = i"
  by (induction ts) (auto split: option.splits simp: find_Some_iff)

lemma getClipById_write:
  "getClipById i ts = Some c \<Longrightarrow> cid c' = i \<Longrightarrow>
   getClipById i (modifyClipById i (\<lambda>_. c') ts) = Some c'"
  by (simp add: getClipById_modify)


lemma find_first:
  "\<forall>x \<in> set xs. \<not> P x \<Longrightarrow> P y \<Longrightarrow> find P (xs @ y # ys) = Some y"
  by (induction xs) auto

lemma findIndex_first:
  "\<forall>x \<in> set xs. \<not> P x \<Longrightarrow> P y \<Longrightarrow> findIndex P (xs @ y # ys) = Some (length xs)"
  by (induction xs) auto

lemma modifyFirst_first:
  "\<forall>x \<in> set xs. \<not> P x \<Longrightarrow> P y \<Longrightarrow> modifyFirst P f (xs @ y # ys) = xs @ f y # ys"
  by (induction xs) auto

lemma getClipById_skip:
  "\<forall>t \<in> set pre. \<not> hasClip i t \<Longrightarrow> getClipById i (pre @ ts) = getClipById i ts"
  by (induction pre) (auto simp: hasClip_find)

lemma getTrackByClipId_skip:
  "\<forall>t \<in> set pre. \<not> hasClip i t \<Longrightarrow> getTrackByClipId i (pre @ ts) = getTrackByClipId i ts"
  by (induction pre) auto

lemma getClipById_first:
  assumes "\<forall>t \<in> set pre. \<not> hasClip i t" and "clips t = cpre @ c # cpost"
    and "\<forall>x \<in> set cpre. cid x \<noteq> i" and "cid c = i"
  shows "getClipById i (pre @ t # post) = Some c"
proof -
  have "find (\<lambda>x. cid x = i) (clips t) = Some c"
    using assms(2-4) by (simp add: find_first)
  then show ?thesis
    using assms(1) by (simp add: getClipById_skip)
qed

lemma getTrackByClipId_first:
  assumes "\<forall>t \<in> set pre. \<not> hasClip i t" and "clips t = cpre @ c # cpost" and "cid c = i"
  shows "getTrackByClipId i (pre @ t # post) = Some t"
proof -
  have "hasClip i t"
    using assms(2,3) by (auto simp: hasClip_def)
  then show ?thesis
    using assms(1) by (simp add: getTrackByClipId_skip)
qed

lemma getClipById_None_iff:
  "getClipById i ts = None \<longleftrightarrow> (\<forall>t \<in> set ts. \<not> hasClip i t)"
  by (induction ts) (auto simp: hasClip_find split: option.splits)

lemma getTrackByClipId_None_iff:
  "getTrackByClipId i ts = None \<longleftrightarrow> (\<forall>t \<in> set ts. \<not> hasClip i t)"
  by (induction ts) auto

lemma find_tid_None_iff:
  "find (\<lambda>t. tid t = i) ts = None \<longleftrightarrow> i \<notin> set (map tid ts)"
  by (auto simp: find_None_iff)

lemma set_map_modifyFirst:
  "(\<And>x. g (f x) = g x) \<Longrightarrow> map g (modifyFirst P f xs) = map g xs"
  by (induction xs) auto

lemma tracks_updateProjectDuration [simp]:
  "tracks (updateProjectDuration s) = tracks s"
  by (simp add: updateProjectDuration_def Let_def)

lemma getClipById_mem: "getClipById i ts = Some c \<Longrightarrow> c \<in> set (allClips ts)"
  by (induction ts) (auto simp: allClips_def find_Some_iff split: option.splits)

lemma pushed_clip_mem:
  "\<exists>t \<in> set ts. P t \<Longrightarrow>
   c \<in> set (allClips (modifyFirst P (\<lambda>t. t\<lparr>clips := clips t @ [c]\<rparr>) ts))"
  by (induction ts) (auto simp: allClips_def)

subsection \<open>What the helpers leave alone\<close>

lemma tracks_saveHistory [simp]: "tracks (saveHistory s) = tracks s"
  by (simp add: saveHistory_def Let_def)

lemma selectedClipIds_saveHistory [simp]: "selectedClipIds (saveHistory s) = selectedClipIds s"
  by (simp add: saveHistory_def Let_def)

lemma currentTime_saveHistory [simp]: "currentTime (saveHistory s) = currentTime s"
  by (simp add: saveHistory_def Let_def)

lemma selectedClipIds_updateProjectDuration [simp]:
  "selectedClipIds (updateProjectDuration s) = selectedClipIds s"
  by (simp add: updateProjectDuration_def Let_def)

lemma currentTime_updateProjectDuration [simp]:
  "currentTime (updateProjectDuration s) = currentTime s"
  by (simp add: updateProjectDuration_def Let_def)

subsection \<open>Valid states\<close>

lemma clip_ok_flag [simp]: "clip_ok (c\<lparr>isSelected := b\<rparr>) = clip_ok c"
  by (simp add: clip_ok_def)

lemma clip_ok_trackId [simp]: "clip_ok (c\<lparr>trackId := b\<rparr>) = clip_ok c"
  by (simp add: clip_ok_def)

lemma set_modifyFirst_subset: "set (modifyFirst P f xs) \<subseteq> set xs \<union> f ` set xs"
  by (induction xs) auto

lemma set_removeFirst_subset: "set (removeFirst P xs) \<subseteq> set xs"
  by (induction xs) auto

lemma tracks_ok_modifyFirst:
  assumes "tracks_ok ts" and "\<And>t. t \<in> set ts \<Longrightarrow> \<forall>c \<in> set (clips (f t)). clip_ok c"
  shows "tracks_ok (modifyFirst P f ts)"
proof -
  have "\<forall>t \<in> set ts \<union> f ` set ts. \<forall>c \<in> set (clips t). clip_ok c"
    using assms by (auto simp: tracks_ok_def)
  then show ?thesis
    using set_modifyFirst_subset [of P f ts] by (auto simp: tracks_ok_def)
qed

lemma tracks_ok_modifyClipById:
  assumes "tracks_ok ts" and "clip_ok c'"
  shows "tracks_ok (modifyClipById i (\<lambda>_. c') ts)"
  unfolding modifyClipById_def
proof (rule tracks_ok_modifyFirst [OF assms(1)])
  fix t
  assume "t \<in> set ts"
  then have "\<forall>c \<in> set (clips t). clip_ok c"
    using assms(1) by (simp add: tracks_ok_def)
  then show "\<forall>c \<in> set (clips (t\<lparr>clips := modifyFirst (\<lambda>c. cid c = i) (\<lambda>_. c') (clips t)\<rparr>)). clip_ok c"
    using set_modifyFirst_subset [of "\<lambda>c. cid c = i" "\<lambda>_. c'" "clips t"] assms(2) by auto
qed

lemma tracks_ok_push:
  assumes "tracks_ok ts" and "clip_ok c'"
  shows "tracks_ok (modifyFirst P (\<lambda>t. t\<lparr>clips := clips t @ [c']\<rparr>) ts)"
  using assms by (intro tracks_ok_modifyFirst) (auto simp: tracks_ok_def)

lemma tracks_ok_remove:
  assumes "tracks_ok ts"
  shows "tracks_ok (modifyFirst P (\<lambda>t. t\<lparr>clips := removeFirst Q (clips t)\<rparr>) ts)"
proof (rule tracks_ok_modifyFirst [OF assms])
  fix t
  assume "t \<in> set ts"
  then show "\<forall>c \<in> set (clips (t\<lparr>clips := removeFirst Q (clips t)\<rparr>)). clip_ok c"
    using assms set_removeFirst_subset [of Q "clips t"] by (auto simp: tracks_ok_def)
qed

lemma tracks_ok_clearFlags: "tracks_ok ts \<Longrightarrow> tracks_ok (clearFlags ts)"
  by (auto simp: tracks_ok_def clearFlags_def)

lemma getClipById_ok: "tracks_ok ts \<Longrightarrow> getClipById i ts = Some c \<Longrightarrow> clip_ok c"
  using getClipById_mem [of i ts c] by (auto simp: tracks_ok_def allClips_def)

lemma set_slice0_subset: "set (slice0 xs n) \<subseteq> set xs"
  by (auto simp: slice0_def dest: in_set_takeD)

lemma state_ok_saveHistory: "state_ok s \<Longrightarrow> state_ok (saveHistory s)"
proof -
  assume ok: "state_ok s"
  define h where "h = slice0 (history s) (historyIndex s + 1) @
      [\<lparr> h_tracks = deepCopy (tracks s), h_selectedClipIds = selectedClipIds s \<rparr>]"
  have all: "\<forall>x \<in> set h. tracks_ok (h_tracks x)"
    using ok set_slice0_subset [of "history s" "historyIndex s + 1"]
    by (auto simp: h_def state_ok_def deepCopy_def)
  have "set (tl h) \<subseteq> set h"
    by (cases h) auto
  with all have "\<forall>x \<in> set (tl h). tracks_ok (h_tracks x)"
    by blast
  with all ok show ?thesis
    by (simp add: saveHistory_def Let_def h_def [symmetric] state_ok_def)
qed

lemma state_ok_updateProjectDuration: "state_ok s \<Longrightarrow> state_ok (updateProjectDuration s)"
  by (simp add: state_ok_def updateProjectDuration_def Let_def)

lemma state_ok_tracks: "state_ok s \<Longrightarrow> tracks_ok ts \<Longrightarrow> state_ok (s\<lparr>tracks := ts\<rparr>)"
  by (simp add: state_ok_def)

lemma state_ok_write:
  "state_ok s \<Longrightarrow> clip_ok c' \<Longrightarrow> state_ok (s\<lparr>tracks := modifyClipById i (\<lambda>_. c') (tracks s)\<rparr>)"
  by (simp add: state_ok_def tracks_ok_modifyClipById)

lemma currentTime_addClip [simp]: "currentTime (snd (addClip gid tr p s)) = currentTime s"
  by (simp add: addClip_def Let_def split: option.splits)

lemma clipboard_saveHistory [simp]: "clipboard (saveHistory s) = clipboard s"
  by (simp add: saveHistory_def Let_def)

lemma clipboard_updateProjectDuration [simp]:
  "clipboard (updateProjectDuration s) = clipboard s"
  by (simp add: updateProjectDuration_def Let_def)

lemma clipboard_addClip [simp]: "clipboard (snd (addClip gid tr p s)) = clipboard s"
  by (simp add: addClip_def Let_def split: option.splits)

lemma state_ok_addClip:
  assumes "state_ok s" and "timesGiven_ok clipData"
  shows "state_ok (snd (addClip gid tr clipData s))"
proof (cases "find (\<lambda>t. tid t = tr) (tracks s)")
  case None
  then show ?thesis
    using assms(1) by (simp add: addClip_def)
next
  case (Some track)
  define newClip where "newClip = assign
      \<lparr> cid = Some gid, trackId = tr,
        startTime = num_or (p_startTime clipData) (currentTime s),
        endTime = num_or (p_endTime clipData) (currentTime s + 5),
        sourceStartTime = num_or (p_sourceStartTime clipData) 0,
        duration = num_or (p_duration clipData) 5,
        isSelected = False,
        ctype = (case ttype track of Video \<Rightarrow> Video | Audio \<Rightarrow> Audio | Text \<Rightarrow> Text),
        props = defaultProps (ttype track) clipData \<rparr> clipData"
  have "0 \<le> currentTime s"
    using assms(1) by (simp add: state_ok_def)
  then have "clip_ok newClip"
    using assms(2)
    by (simp add: newClip_def clip_ok_def timesGiven_ok_def assign_def num_or_def
        split: option.splits)
  then have "tracks_ok (modifyFirst (\<lambda>t. tid t = tr) (\<lambda>t. t\<lparr>clips := clips t @ [newClip]\<rparr>) (tracks s))"
    using assms(1) by (simp add: state_ok_def tracks_ok_push)
  then have "state_ok (s\<lparr>tracks := modifyFirst (\<lambda>t. tid t = tr)
      (\<lambda>t. t\<lparr>clips := clips t @ [newClip]\<rparr>) (tracks s)\<rparr>)"
    using assms(1) by (rule state_ok_tracks [rotated])
  then show ?thesis
    using Some
    by (simp add: addClip_def Let_def newClip_def [symmetric] state_ok_saveHistory
        state_ok_updateProjectDuration)
qed

lemma state_ok_removeClip: "state_ok s \<Longrightarrow> state_ok (removeClip i s)"
proof -
  assume ok: "state_ok s"
  have "state_ok (s\<lparr>tracks := modifyFirst (hasClip i)
      (\<lambda>t. t\<lparr>clips := removeFirst (\<lambda>c. cid c = i) (clips t)\<rparr>) (tracks s)\<rparr>)"
    using ok by (simp add: state_ok_def tracks_ok_remove)
  then have "state_ok (s\<lparr>tracks := modifyFirst (hasClip i)
      (\<lambda>t. t\<lparr>clips := removeFirst (\<lambda>c. cid c = i) (clips t)\<rparr>) (tracks s),
      selectedClipIds := remove1 i (selectedClipIds s)\<rparr>)"
    by (simp add: state_ok_def)
  then show ?thesis
    using ok
    by (simp add: removeClip_def Let_def state_ok_saveHistory state_ok_updateProjectDuration)
qed

lemma state_ok_updateClip:
  assumes "state_ok s" and "timesGiven_ok updates"
  shows "state_ok (updateClip i updates s)"
proof (cases "getClipById i (tracks s)")
  case None
  then show ?thesis
    using assms(1) by (simp add: updateClip_def)
next
  case (Some clip)
  then have "clip_ok clip"
    using assms(1) by (auto simp: state_ok_def intro: getClipById_ok)
  then have "clip_ok (assign clip updates)"
    using assms(2)
    by (simp add: clip_ok_def timesGiven_ok_def assign_def split: option.splits)
  then show ?thesis
    using assms(1) Some
    by (simp add: updateClip_def state_ok_write state_ok_updateProjectDuration)
qed

lemma tracks_ok_split:
  assumes "tracks_ok ts" and "clip_ok c1" and "clip_ok c2"
  shows "tracks_ok (modifyFirst P
      (\<lambda>t. t\<lparr>clips := spliceInsert n c2 (modifyFirst Q (\<lambda>_. c1) (clips t))\<rparr>) ts)"
proof (rule tracks_ok_modifyFirst [OF assms(1)])
  fix t
  assume "t \<in> set ts"
  then have "\<forall>c \<in> set (clips t). clip_ok c"
    using assms(1) by (simp add: tracks_ok_def)
  then have "\<forall>c \<in> set (modifyFirst Q (\<lambda>_. c1) (clips t)). clip_ok c"
    using set_modifyFirst_subset [of Q "\<lambda>_. c1" "clips t"] assms(2) by auto
  then show "\<forall>c \<in> set (clips (t\<lparr>clips := spliceInsert n c2 (modifyFirst Q (\<lambda>_. c1) (clips t))\<rparr>)).
      clip_ok c"
    using assms(3) by (auto simp: spliceInsert_def dest: in_set_takeD in_set_dropD)
qed

lemma state_ok_splitClip: "state_ok s \<Longrightarrow> state_ok (snd (splitClip gid i m s))"
proof -
  assume ok: "state_ok s"
  show ?thesis
  proof (cases "\<exists>c t. getClipById i (tracks s) = Some c \<and> getTrackByClipId i (tracks s) = Some t \<and>
      startTime c < m \<and> m < endTime c")
    case True
    then obtain c t where c: "getClipById i (tracks s) = Some c"
      "getTrackByClipId i (tracks s) = Some t" "startTime c < m" "m < endTime c"
      by blast
    have cok: "clip_ok c"
      using ok c(1) by (auto simp: state_ok_def intro: getClipById_ok)
    have c1: "clip_ok (c\<lparr>endTime := m, duration := m - startTime c\<rparr>)"
      using cok c(3) by (simp add: clip_ok_def)
    have c2: "clip_ok (c\<lparr>cid := Some gid, startTime := m, duration := endTime c - m,
        sourceStartTime := num_or (Some (sourceStartTime c)) 0 + (m - startTime c),
        isSelected := False\<rparr>)"
      using cok c(3,4) by (simp add: clip_ok_def)
    have tok: "tracks_ok (tracks s)"
      using ok by (simp add: state_ok_def)
    show ?thesis
      using c
      by (simp add: splitClip_def Let_def deepCopy_def)
        (intro state_ok_saveHistory state_ok_tracks ok tracks_ok_split tok c1 c2)
  next
    case False
    then show ?thesis
      using ok by (auto simp: splitClip_def split: option.splits)
  qed
qed

lemma state_ok_trimClipStart: "state_ok s \<Longrightarrow> state_ok (trimClipStart i t s)"
proof (cases "getClipById i (tracks s)")
  case None
  then show "state_ok s \<Longrightarrow> ?thesis"
    by (simp add: trimClipStart_def)
next
  case (Some c)
  assume ok: "state_ok s"
  then have "clip_ok c"
    using Some by (auto simp: state_ok_def intro: getClipById_ok)
  then have "clip_ok (c\<lparr>startTime := max 0 (min (endTime c - 1 / 10) t),
      sourceStartTime := num_or (Some (sourceStartTime c)) 0 +
        (max 0 (min (endTime c - 1 / 10) t) - startTime c),
      duration := endTime c - max 0 (min (endTime c - 1 / 10) t)\<rparr>)"
    by (auto simp: clip_ok_def max_def min_def)
  then show ?thesis
    using ok Some by (simp add: trimClipStart_def Let_def state_ok_write)
qed

lemma state_ok_trimClipEnd: "state_ok s \<Longrightarrow> state_ok (trimClipEnd i t s)"
proof (cases "getClipById i (tracks s)")
  case None
  then show "state_ok s \<Longrightarrow> ?thesis"
    by (simp add: trimClipEnd_def)
next
  case (Some c)
  assume ok: "state_ok s"
  then have "clip_ok c"
    using Some by (auto simp: state_ok_def intro: getClipById_ok)
  then have "clip_ok (c\<lparr>endTime := max (startTime c + 1 / 10) t,
      duration := max (startTime c + 1 / 10) t - startTime c\<rparr>)"
    by (auto simp: clip_ok_def max_def)
  then show ?thesis
    using ok Some
    by (simp add: trimClipEnd_def Let_def state_ok_write state_ok_updateProjectDuration)
qed

lemma state_ok_moveClip: "state_ok s \<Longrightarrow> state_ok (moveClip i t nt s)"
proof (cases "getClipById i (tracks s)")
  case None
  then show "state_ok s \<Longrightarrow> ?thesis"
    by (simp add: moveClip_def)
next
  case (Some c)
  assume ok: "state_ok s"
  then have cok: "clip_ok c" and tok: "tracks_ok (tracks s)"
    using Some by (auto simp: state_ok_def intro: getClipById_ok)
  have moved: "\<And>n. clip_ok (c\<lparr>startTime := max 0 n, endTime := max 0 n + (endTime c - startTime c)\<rparr>)"
    using cok by (simp add: clip_ok_def)
  then have ts1: "\<And>n. tracks_ok (modifyClipById i
      (\<lambda>_. c\<lparr>startTime := max 0 n, endTime := max 0 n + (endTime c - startTime c)\<rparr>) (tracks s))"
    using tok by (simp add: tracks_ok_modifyClipById)
  have ts2: "\<And>n x. tracks_ok (modifyFirst (\<lambda>t. tid t = x)
      (\<lambda>t. t\<lparr>clips := clips t @
         [c\<lparr>startTime := max 0 n, endTime := max 0 n + (endTime c - startTime c), trackId := x\<rparr>]\<rparr>)
      (modifyFirst (hasClip i) (\<lambda>t. t\<lparr>clips := removeFirst (\<lambda>c. cid c = i) (clips t)\<rparr>)
        (modifyClipById i
          (\<lambda>_. c\<lparr>startTime := max 0 n, endTime := max 0 n + (endTime c - startTime c)\<rparr>)
          (tracks s))))"
    using moved by (intro tracks_ok_push tracks_ok_remove ts1) simp
  show ?thesis
    using Some ok
    by (auto simp: moveClip_def Let_def state_ok_updateProjectDuration state_ok_tracks ts1 ts2
        split: option.splits)
qed

lemma state_ok_selectClip: "state_ok s \<Longrightarrow> state_ok (selectClip i add s)"
proof -
  assume ok: "state_ok s"
  define s1 where "s1 = (if \<not> add then s\<lparr>tracks := clearFlags (tracks s), selectedClipIds := []\<rparr> else s)"
  have ok1: "state_ok s1"
    using ok by (simp add: s1_def state_ok_def tracks_ok_clearFlags)
  show ?thesis
  proof (cases "getClipById i (tracks s1)")
    case None
    then show ?thesis
      using ok1 by (simp add: selectClip_def Let_def s1_def [symmetric])
  next
    case (Some c)
    then have "clip_ok c"
      using ok1 by (auto simp: state_ok_def intro: getClipById_ok)
    then have "tracks_ok (modifyClipById i (\<lambda>_. c\<lparr>isSelected := True\<rparr>) (tracks s1))"
      using ok1 by (simp add: state_ok_def tracks_ok_modifyClipById)
    then show ?thesis
      using ok1 Some by (simp add: selectClip_def Let_def s1_def [symmetric] state_ok_def)
  qed
qed

lemma state_ok_deselectClip: "state_ok s \<Longrightarrow> state_ok (deselectClip i s)"
proof (cases "getClipById i (tracks s)")
  case None
  then show "state_ok s \<Longrightarrow> ?thesis"
    by (simp add: deselectClip_def)
next
  case (Some c)
  assume ok: "state_ok s"
  then have "clip_ok c"
    using Some by (auto simp: state_ok_def intro: getClipById_ok)
  then have "tracks_ok (modifyClipById i (\<lambda>_. c\<lparr>isSelected := False\<rparr>) (tracks s))"
    using ok by (simp add: state_ok_def tracks_ok_modifyClipById)
  then show ?thesis
    using ok Some by (simp add: deselectClip_def state_ok_def)
qed

lemma state_ok_deselectAll: "state_ok s \<Longrightarrow> state_ok (deselectAll s)"
  by (simp add: deselectAll_def state_ok_def tracks_ok_clearFlags)

lemma state_ok_selectAllClips: "state_ok s \<Longrightarrow> state_ok (selectAllClips s)"
  by (auto simp: selectAllClips_def state_ok_def tracks_ok_def)

lemma state_ok_removeTrack: "state_ok s \<Longrightarrow> state_ok (removeTrack x s)"
proof -
  assume ok: "state_ok s"
  have "tracks_ok (removeFirst (\<lambda>t. tid t = x) (tracks s))"
    using ok set_removeFirst_subset [of "\<lambda>t. tid t = x" "tracks s"]
    by (auto simp: state_ok_def tracks_ok_def)
  then have "\<And>sel. state_ok (s\<lparr>selectedClipIds := sel,
      tracks := removeFirst (\<lambda>t. tid t = x) (tracks s)\<rparr>)"
    using ok by (simp add: state_ok_def)
  then show ?thesis
    using ok by (simp add: removeTrack_def state_ok_saveHistory split: option.splits)
qed

lemma state_ok_copySelectedClips: "state_ok s \<Longrightarrow> state_ok (copySelectedClips s)"
  by (auto simp: copySelectedClips_def selectedClips_def deepCopy_def state_ok_def
      tracks_ok_def allClips_def)

lemma index_mem: "index xs i = Some x \<Longrightarrow> x \<in> set xs"
  by (auto simp: index_def split: if_splits)

lemma state_ok_undo: "state_ok s \<Longrightarrow> state_ok (snd (undo s))"
  by (auto simp: undo_def Let_def state_ok_def deepCopy_def split: option.splits
      dest: index_mem)

lemma state_ok_redo: "state_ok s \<Longrightarrow> state_ok (snd (redo s))"
  by (auto simp: redo_def Let_def state_ok_def deepCopy_def split: option.splits
      dest: index_mem)

lemma fold_min_le: "fold min xs a \<le> (a::real) \<and> (\<forall>x \<in> set xs. fold min xs a \<le> x)"
proof (induction xs arbitrary: a)
  case Nil
  show ?case by simp
next
  case (Cons y ys)
  have "fold min ys (min y a) \<le> min y a"
    using Cons [of "min y a"] by simp
  then show ?case
    using Cons [of "min y a"] by auto
qed

lemma minList_le: "x \<in> set xs \<Longrightarrow> minList xs \<le> x"
  using fold_min_le by (cases xs) auto

lemma state_ok_pasteLoop:
  assumes "state_ok s" and "0 \<le> pasteTime"
    and "\<forall>c \<in> set cs. clip_ok c \<and> minStartTime \<le> startTime c"
  shows "state_ok (pasteLoop gen k pasteTime minStartTime cs s)"
  using assms
proof (induction cs arbitrary: k s)
  case Nil
  then show ?case by simp
next
  case (Cons c cs)
  have c: "clip_ok c" "minStartTime \<le> startTime c"
    using Cons.prems(3) by simp_all
  have rest: "\<forall>x \<in> set cs. clip_ok x \<and> minStartTime \<le> startTime x"
    using Cons.prems(3) by simp
  have skip: "state_ok (pasteLoop gen (Suc k) pasteTime minStartTime cs s)"
    using Cons.IH [OF Cons.prems(1,2) rest] .
  have "timesGiven_ok ((spread c)
      \<lparr>p_id := Some None,
       p_startTime := Some (pasteTime + (startTime c - minStartTime)),
       p_endTime := Some (pasteTime + (startTime c - minStartTime) + duration c),
       p_isSelected := Some False\<rparr>)"
    using c Cons.prems(2) by (simp add: timesGiven_ok_def spread_def clip_ok_def)
  then have "\<And>x. state_ok (snd (addClip (gen k) x ((spread c)
      \<lparr>p_id := Some None,
       p_startTime := Some (pasteTime + (startTime c - minStartTime)),
       p_endTime := Some (pasteTime + (startTime c - minStartTime) + duration c),
       p_isSelected := Some False\<rparr>) s))"
    using Cons.prems(1) by (simp add: state_ok_addClip)
  then have "\<And>x. state_ok (pasteLoop gen (Suc k) pasteTime minStartTime cs
      (snd (addClip (gen k) x ((spread c)
        \<lparr>p_id := Some None,
         p_startTime := Some (pasteTime + (startTime c - minStartTime)),
         p_endTime := Some (pasteTime + (startTime c - minStartTime) + duration c),
         p_isSelected := Some False\<rparr>) s)))"
    using Cons.IH [OF _ Cons.prems(2) rest] by blast
  then show ?case
    using skip by (simp add: Let_def split: option.splits)
qed

lemma state_ok_pasteClips: "state_ok s \<Longrightarrow> state_ok (pasteClips gen s)"
proof -
  assume ok: "state_ok s"
  have "\<forall>c \<in> set (clipboard s). clip_ok c \<and> minList (map startTime (clipboard s)) \<le> startTime c"
    using ok by (auto simp: state_ok_def intro: minList_le)
  moreover have "0 \<le> currentTime s"
    using ok by (simp add: state_ok_def)
  ultimately show ?thesis
    using ok by (simp add: pasteClips_def Let_def state_ok_pasteLoop)
qed

lemma clipAt_ok:
  assumes "tracks_ok ts" and "clipAt ts pos = Some c"
  shows "clip_ok c"
proof -
  have in_range: "fst pos < length ts" "snd pos < length (clips (ts ! fst pos))"
    and c: "c = clips (ts ! fst pos) ! snd pos"
    using assms(2) by (auto simp: clipAt_def split: if_splits)
  have "ts ! fst pos \<in> set ts"
    using in_range(1) by simp
  moreover have "c \<in> set (clips (ts ! fst pos))"
    using in_range(2) c by simp
  ultimately show ?thesis
    using assms(1) by (auto simp: tracks_ok_def)
qed

lemma state_ok_duplicateLoop: "state_ok s \<Longrightarrow> state_ok (duplicateLoop gen k ps s)"
proof (induction ps arbitrary: k s)
  case Nil
  then show ?case by simp
next
  case (Cons pos ps)
  have skip: "state_ok (duplicateLoop gen (Suc k) ps s)"
    using Cons.IH [OF Cons.prems] .
  show ?case
  proof (cases "clipAt (tracks s) pos")
    case None
    then show ?thesis
      using skip by simp
  next
    case (Some c)
    then have "clip_ok c"
      using Cons.prems by (auto simp: state_ok_def intro: clipAt_ok)
    then have "timesGiven_ok ((spread (deepCopy c))
        \<lparr>p_id := Some None, p_startTime := Some (endTime c),
         p_endTime := Some (endTime c + duration c)\<rparr>)"
      by (simp add: timesGiven_ok_def spread_def deepCopy_def clip_ok_def)
    then have added: "\<And>x. state_ok (snd (addClip (gen k) x ((spread (deepCopy c))
        \<lparr>p_id := Some None, p_startTime := Some (endTime c),
         p_endTime := Some (endTime c + duration c)\<rparr>) s))"
      using Cons.prems by (simp add: state_ok_addClip)
    have step: "\<And>x. state_ok (case addClip (gen k) x ((spread (deepCopy c))
        \<lparr>p_id := Some None, p_startTime := Some (endTime c),
         p_endTime := Some (endTime c + duration c)\<rparr>) s of
          (None, s1) \<Rightarrow> duplicateLoop gen (Suc k) ps s1
        | (Some newClip, s1) \<Rightarrow> duplicateLoop gen (Suc k) ps (selectClip (cid newClip) True s1))"
    proof -
      fix x
      obtain r s1 where r: "addClip (gen k) x ((spread (deepCopy c))
          \<lparr>p_id := Some None, p_startTime := Some (endTime c),
           p_endTime := Some (endTime c + duration c)\<rparr>) s = (r, s1)"
        by (cases "addClip (gen k) x ((spread (deepCopy c))
          \<lparr>p_id := Some None, p_startTime := Some (endTime c),
           p_endTime := Some (endTime c + duration c)\<rparr>) s") auto
      then have "state_ok s1"
        using added [of x] by simp
      then show "state_ok (case addClip (gen k) x ((spread (deepCopy c))
          \<lparr>p_id := Some None, p_startTime := Some (endTime c),
           p_endTime := Some (endTime c + duration c)\<rparr>) s of
            (None, s1) \<Rightarrow> duplicateLoop gen (Suc k) ps s1
          | (Some newClip, s1) \<Rightarrow> duplicateLoop gen (Suc k) ps (selectClip (cid newClip) True s1))"
        using r by (auto simp: Cons.IH state_ok_selectClip split: option.splits)
    qed
    show ?thesis
      using Some skip step by (simp split: option.splits)
  qed
qed

lemma state_ok_duplicateSelectedClips:
  "state_ok s \<Longrightarrow> state_ok (duplicateSelectedClips gen s)"
  by (simp add: duplicateSelectedClips_def state_ok_duplicateLoop state_ok_deselectAll)

lemma state_ok_apply_edit:
  "state_ok s \<Longrightarrow> times_input_ok e \<Longrightarrow> state_ok (apply_edit e s)"
  by (cases e)
    (simp_all add: state_ok_addClip state_ok_removeClip state_ok_updateClip state_ok_splitClip
      state_ok_moveClip state_ok_trimClipStart state_ok_trimClipEnd state_ok_selectClip
      state_ok_deselectClip state_ok_deselectAll state_ok_selectAllClips state_ok_removeTrack
      state_ok_copySelectedClips state_ok_pasteClips state_ok_duplicateSelectedClips
      state_ok_undo state_ok_redo)

lemma state_ok_run: "state_ok s \<Longrightarrow> list_all times_input_ok es \<Longrightarrow> state_ok (run es s)"
  by (induction es arbitrary: s) (simp_all add: state_ok_apply_edit)

lemma state_ok_storeOf: "\<forall>c \<in> set cs. clip_ok c \<Longrightarrow> state_ok (storeOf cs sel)"
  by (simp add: state_ok_def tracks_ok_def storeOf_def initialStore_def videoTrack_def)

subsection \<open>The history under snapshots\<close>

lemma history_updateProjectDuration [simp]:
  "history (updateProjectDuration s) = history s \<and>
   historyIndex (updateProjectDuration s) = historyIndex s"
  by (simp add: updateProjectDuration_def Let_def)

text \<open>
  One snapshot on a history that is within its capacity: the index is then the last
  position, which holds the snapshot, and the entry \<open>j\<close> steps before the old index is
  \<open>j + 1\<close> steps before the new one, also when the oldest entry has been dropped.
\<close>

lemma saveHistory_back:
  assumes "0 \<le> historyIndex s" and "historyIndex s < int (length (history s))"
    and "length (history s) \<le> maxHistorySize"
    and "int j \<le> historyIndex s" and "j + 1 < maxHistorySize"
  shows "historyIndex (saveHistory s) = int (length (history (saveHistory s))) - 1 \<and>
         length (history (saveHistory s)) \<le> maxHistorySize \<and>
         int (j + 1) \<le> historyIndex (saveHistory s) \<and>
         history (saveHistory s) ! nat (historyIndex (saveHistory s) - int (j + 1)) =
           history s ! nat (historyIndex s - int j) \<and>
         history (saveHistory s) ! nat (historyIndex (saveHistory s)) =
           \<lparr> h_tracks = tracks s, h_selectedClipIds = selectedClipIds s \<rparr>"
proof -
  define i where "i = nat (historyIndex s)"
  define e where "e = \<lparr> h_tracks = tracks s, h_selectedClipIds = selectedClipIds s \<rparr>"
  define h' where "h' = take (i + 1) (history s) @ [e]"
  have i: "historyIndex s = int i" "i < length (history s)" "j \<le> i"
    using assms(1,2,4) by (simp_all add: i_def)
  have sl: "slice0 (history s) (historyIndex s + 1) = take (i + 1) (history s)"
    using assms(1) by (simp add: slice0_def i_def nat_add_distrib)
  have len: "length h' = i + 2"
    using i(2) by (simp add: h'_def)
  have old: "h' ! (i - j) = history s ! (i - j)"
    using i(2,3) by (simp add: h'_def nth_append)
  have new: "h' ! (i + 1) = e"
    using i(2) by (simp add: h'_def nth_append)
  have bk: "nat (historyIndex s - int j) = i - j"
    using i(1,3) by simp
  have sv_if: "saveHistory s =
      (if length h' > maxHistorySize then s\<lparr>history := tl h'\<rparr>
       else s\<lparr>history := h', historyIndex := historyIndex s + 1\<rparr>)"
    by (simp add: saveHistory_def Let_def sl deepCopy_def h'_def e_def)
  show ?thesis
  proof (cases "i + 2 > maxHistorySize")
    case False
    then have sv: "saveHistory s = s\<lparr>history := h', historyIndex := int i + 1\<rparr>"
      using len by (simp add: sv_if i(1))
    have n0: "nat (int i - int j) = i - j"
      using i(3) by simp
    have n2: "nat (int i + 1) = Suc i"
      by simp
    show ?thesis
      using False len old new i(3)
      by (simp add: sv bk n0 n2 e_def [symmetric])
  next
    case True
    then have i49: "i + 1 = maxHistorySize"
      using i(2) assms(3) by simp
    have sv: "saveHistory s = s\<lparr>history := tl h'\<rparr>"
      using True len by (simp add: sv_if)
    have tl_nth: "\<And>n. n + 1 < length h' \<Longrightarrow> tl h' ! n = h' ! (n + 1)"
      by (simp add: nth_tl)
    have j: "j + 1 \<le> i"
      using assms(5) i49 by simp
    have "i - (j + 1) + 1 = i - j"
      using j by simp
    then have a: "tl h' ! (i - (j + 1)) = h' ! (i - j)"
      using tl_nth [of "i - (j + 1)"] len j by (simp del: One_nat_def)
    have b: "tl h' ! i = h' ! (i + 1)"
      using tl_nth [of i] len by simp
    have n1: "nat (int i - (1 + int j)) = i - (j + 1)"
      using j by simp
    have l2: "length (tl h') = i + 1"
      using len by simp
    have n0: "nat (int i - int j) = i - j"
      using i(3) by simp
    show ?thesis
      using a b old new j i49 l2
      by (simp add: sv i(1) n0 n1 e_def [symmetric])
  qed
qed

lemma getTrackByClipId_Some:
  "getClipById i ts = Some c \<Longrightarrow> \<exists>t. getTrackByClipId i ts = Some t"
  using getClipById_None_iff [of i ts] getTrackByClipId_None_iff [of i ts] by auto

lemma snapshot_shape:
  assumes "snapshots_once e s"
  shows "\<exists>s0. apply_edit e s = saveHistory s0 \<and> history s0 = history s \<and>
           historyIndex s0 = historyIndex s"
proof (cases e)
  case (AddClip gid tr p)
  then have "find (\<lambda>t. tid t = tr) (tracks s) \<noteq> None"
    using assms by (auto simp: find_None_iff)
  then obtain t where "find (\<lambda>t. tid t = tr) (tracks s) = Some t"
    by auto
  then show ?thesis
    using AddClip by (auto simp: addClip_def Let_def intro!: exI)
next
  case (RemoveClip i)
  then show ?thesis
    using assms by (auto simp: removeClip_def Let_def intro!: exI)
next
  case (SplitClip gid i m)
  then obtain c where c: "getClipById i (tracks s) = Some c" "startTime c < m" "m < endTime c"
    using assms by (auto split: option.splits)
  then obtain t where "getTrackByClipId i (tracks s) = Some t"
    using getTrackByClipId_Some by blast
  then show ?thesis
    using SplitClip c by (auto simp: splitClip_def Let_def intro!: exI)
next
  case (RemoveTrack tr)
  then have "find (\<lambda>t. tid t = tr) (tracks s) \<noteq> None"
    using assms by (auto simp: find_None_iff)
  then obtain t where "find (\<lambda>t. tid t = tr) (tracks s) = Some t"
    by auto
  then show ?thesis
    using RemoveTrack by (auto simp: removeTrack_def intro!: exI)
qed (use assms in simp_all)

lemma snapshot_step:
  assumes "snapshots_once e s" and "0 \<le> historyIndex s"
    and "historyIndex s < int (length (history s))" and "length (history s) \<le> maxHistorySize"
    and "int j \<le> historyIndex s" and "j + 1 < maxHistorySize"
  shows "0 \<le> historyIndex (apply_edit e s) \<and>
         historyIndex (apply_edit e s) < int (length (history (apply_edit e s))) \<and>
         length (history (apply_edit e s)) \<le> maxHistorySize \<and>
         int (j + 1) \<le> historyIndex (apply_edit e s) \<and>
         history (apply_edit e s) ! nat (historyIndex (apply_edit e s) - int (j + 1)) =
           history s ! nat (historyIndex s - int j) \<and>
         synced (apply_edit e s)"
proof -
  obtain s0 where s0: "apply_edit e s = saveHistory s0" "history s0 = history s"
    "historyIndex s0 = historyIndex s"
    using snapshot_shape [OF assms(1)] by blast
  note B = saveHistory_back [of s0 j, unfolded s0(2,3), OF assms(2-6)]
  have b: "historyIndex (saveHistory s0) = int (length (history (saveHistory s0))) - 1"
    "length (history (saveHistory s0)) \<le> maxHistorySize"
    "int (j + 1) \<le> historyIndex (saveHistory s0)"
    "history (saveHistory s0) ! nat (historyIndex (saveHistory s0) - int (j + 1)) =
       history s ! nat (historyIndex s - int j)"
    "history (saveHistory s0) ! nat (historyIndex (saveHistory s0)) =
       \<lparr> h_tracks = tracks s0, h_selectedClipIds = selectedClipIds s0 \<rparr>"
    using B by blast+
  have pos: "0 \<le> historyIndex (saveHistory s0)"
    using b(3) by simp
  have lt: "historyIndex (saveHistory s0) < int (length (history (saveHistory s0)))"
    using b(1) by simp
  have "synced (saveHistory s0)"
    using pos lt b(5) by (simp add: synced_def index_def)
  then show ?thesis
    using pos lt b(2-4) by (simp add: s0(1))
qed

lemma run_history:
  assumes "run_snapshots es s" and "0 \<le> historyIndex s"
    and "historyIndex s < int (length (history s))" and "length (history s) \<le> maxHistorySize"
    and "int j \<le> historyIndex s" and "j + length es < maxHistorySize"
  shows "historyIndex (run es s) < int (length (history (run es s))) \<and>
         int (j + length es) \<le> historyIndex (run es s) \<and>
         history (run es s) ! nat (historyIndex (run es s) - int (j + length es)) =
           history s ! nat (historyIndex s - int j) \<and>
         (es \<noteq> [] \<longrightarrow> synced (run es s))"
  using assms
proof (induction es arbitrary: s j)
  case Nil
  then show ?case by simp
next
  case (Cons e es)
  define s' where "s' = apply_edit e s"
  have step: "0 \<le> historyIndex s'" "historyIndex s' < int (length (history s'))"
    "length (history s') \<le> maxHistorySize" "int (j + 1) \<le> historyIndex s'"
    "history s' ! nat (historyIndex s' - int (j + 1)) = history s ! nat (historyIndex s - int j)"
    "synced s'"
    using snapshot_step [of e s j] Cons.prems by (simp_all add: s'_def)
  have rest: "run_snapshots es s'" "j + 1 + length es < maxHistorySize"
    using Cons.prems(1,6) by (simp_all add: s'_def)
  have IH: "historyIndex (run es s') < int (length (history (run es s'))) \<and>
      int (j + 1 + length es) \<le> historyIndex (run es s') \<and>
      history (run es s') ! nat (historyIndex (run es s') - int (j + 1 + length es)) =
        history s' ! nat (historyIndex s' - int (j + 1)) \<and>
      (es \<noteq> [] \<longrightarrow> synced (run es s'))"
    using Cons.IH [OF rest(1) step(1,2,3,4) rest(2)] .
  have "synced (run es s')"
    using IH step(6) by (cases es) simp_all
  then show ?case
    using IH step(5) by (simp add: s'_def [symmetric] add.commute add.left_commute)
qed

lemma undoTimes_restores:
  assumes "int n \<le> historyIndex s" and "historyIndex s < int (length (history s))"
  shows "\<exists>s'. undoTimes n s = (None, s') \<and> historyIndex s' = historyIndex s - int n \<and>
           history s' = history s \<and>
           (0 < n \<longrightarrow> tracks s' = h_tracks (history s ! nat (historyIndex s - int n)) \<and>
              selectedClipIds s' = h_selectedClipIds (history s ! nat (historyIndex s - int n)))"
  using assms
proof (induction n arbitrary: s)
  case 0
  then show ?case by simp
next
  case (Suc n)
  define st where "st = history s ! nat (historyIndex s - 1)"
  define s2 where "s2 = s\<lparr>historyIndex := historyIndex s - 1, tracks := h_tracks st,
      selectedClipIds := h_selectedClipIds st\<rparr>"
  have pos: "0 < historyIndex s"
    using Suc.prems(1) by simp
  have "index (history s) (historyIndex s - 1) = Some st"
    using pos Suc.prems(2) by (simp add: index_def st_def)
  then have u: "undo s = (None, s2)"
    using pos by (simp add: undo_def Let_def deepCopy_def s2_def)
  have s2: "historyIndex s2 = historyIndex s - 1" "history s2 = history s"
    "tracks s2 = h_tracks st" "selectedClipIds s2 = h_selectedClipIds st"
    by (simp_all add: s2_def)
  obtain s' where s': "undoTimes n s2 = (None, s')"
    "historyIndex s' = historyIndex s2 - int n" "history s' = history s2"
    "0 < n \<longrightarrow> tracks s' = h_tracks (history s2 ! nat (historyIndex s2 - int n)) \<and>
       selectedClipIds s' = h_selectedClipIds (history s2 ! nat (historyIndex s2 - int n))"
    using Suc.IH [of s2] Suc.prems s2(1,2) by auto
  have "n = 0 \<Longrightarrow> s' = s2"
    using s'(1) by simp
  then have "tracks s' = h_tracks (history s ! nat (historyIndex s - int (Suc n))) \<and>
      selectedClipIds s' = h_selectedClipIds (history s ! nat (historyIndex s - int (Suc n)))"
    using s'(4) s2 by (cases "n = 0") (simp_all add: st_def algebra_simps)
  then show ?case
    using u s' s2 by (simp add: algebra_simps)
qed

lemma redoTimes_restores:
  assumes "- 1 \<le> historyIndex s" and "historyIndex s + int n < int (length (history s))"
  shows "\<exists>s'. redoTimes n s = (None, s') \<and> historyIndex s' = historyIndex s + int n \<and>
           history s' = history s \<and>
           (0 < n \<longrightarrow> tracks s' = h_tracks (history s ! nat (historyIndex s + int n)) \<and>
              selectedClipIds s' = h_selectedClipIds (history s ! nat (historyIndex s + int n)))"
  using assms
proof (induction n arbitrary: s)
  case 0
  then show ?case by simp
next
  case (Suc n)
  define st where "st = history s ! nat (historyIndex s + 1)"
  define s2 where "s2 = s\<lparr>historyIndex := historyIndex s + 1, tracks := h_tracks st,
      selectedClipIds := h_selectedClipIds st\<rparr>"
  have lt: "historyIndex s < int (length (history s)) - 1"
    using Suc.prems(2) by simp
  have "index (history s) (historyIndex s + 1) = Some st"
    using lt Suc.prems(1) by (simp add: index_def st_def)
  then have u: "redo s = (None, s2)"
    using lt by (simp add: redo_def Let_def deepCopy_def s2_def)
  have s2: "historyIndex s2 = historyIndex s + 1" "history s2 = history s"
    "tracks s2 = h_tracks st" "selectedClipIds s2 = h_selectedClipIds st"
    by (simp_all add: s2_def)
  obtain s' where s': "redoTimes n s2 = (None, s')"
    "historyIndex s' = historyIndex s2 + int n" "history s' = history s2"
    "0 < n \<longrightarrow> tracks s' = h_tracks (history s2 ! nat (historyIndex s2 + int n)) \<and>
       selectedClipIds s' = h_selectedClipIds (history s2 ! nat (historyIndex s2 + int n))"
    using Suc.IH [of s2] Suc.prems s2(1,2) by auto
  have "n = 0 \<Longrightarrow> s' = s2"
    using s'(1) by simp
  then have "tracks s' = h_tracks (history s ! nat (historyIndex s + int (Suc n))) \<and>
      selectedClipIds s' = h_selectedClipIds (history s ! nat (historyIndex s + int (Suc n)))"
    using s'(4) s2 by (cases "n = 0") (simp_all add: st_def algebra_simps)
  then show ?case
    using u s' s2 by (simp add: algebra_simps)
qed

lemma synced_entry:
  assumes "synced s"
  shows "0 \<le> historyIndex s \<and> historyIndex s < int (length (history s)) \<and>
         history s ! nat (historyIndex s) =
           \<lparr> h_tracks = tracks s, h_selectedClipIds = selectedClipIds s \<rparr>"
  using assms by (auto simp: synced_def index_def split: if_splits)

subsection \<open>Steps of the text animation\<close>

lemma applyIn_ignores_out [simp]: "applyIn now (ov\<lparr>animationOut := x\<rparr>) st = applyIn now ov st"
  by (simp add: applyIn_def split: option.splits)

lemma applyOut_ignores_in [simp]: "applyOut now (ov\<lparr>animationIn := x\<rparr>) st = applyOut now ov st"
  by (simp add: applyOut_def split: option.splits)

lemma applyIn_no_animation [simp]: "applyIn now (ov\<lparr>animationIn := None\<rparr>) st = st"
  by (simp add: applyIn_def)

lemma applyOut_no_animation [simp]: "applyOut now (ov\<lparr>animationOut := None\<rparr>) st = st"
  by (simp add: applyOut_def)

lemma applyOut_alpha:
  "alpha st' = 1 \<Longrightarrow> alpha (applyOut now ov st) = alpha st * alpha (applyOut now ov st')"
  by (simp add: applyOut_def Let_def split: option.splits AnimType.splits)

lemma applyOut_pos_y:
  "pos_y (applyOut now ov st) - pos_y st = pos_y (applyOut now ov st') - pos_y st'"
  by (simp add: applyOut_def Let_def split: option.splits AnimType.splits)

lemma applyOut_keeps:
  "pos_x (applyOut now ov st) = pos_x st \<and> content (applyOut now ov st) = content st \<and>
   visible (applyOut now ov st) = visible st"
  by (simp add: applyOut_def Let_def split: option.splits AnimType.splits)

lemma applyOut_scale:
  "scaleX (applyOut now ov st) =
     (if \<exists>a. animationOut ov = Some a \<and> a_type a = Scale \<and> o_endTime ov - now < a_duration a
      then scaleX (applyOut now ov st') else scaleX st)"
  by (auto simp: applyOut_def Let_def split: option.splits AnimType.splits)

lemma applyOut_scaleY:
  "scaleY st = scaleX st \<Longrightarrow> scaleY (applyOut now ov st) = scaleX (applyOut now ov st)"
  by (simp add: applyOut_def Let_def split: option.splits AnimType.splits)

lemma applyIn_keeps:
  "pos_x (applyIn now ov st) = pos_x st \<and> visible (applyIn now ov st) = visible st \<and>
   (scaleY st = scaleX st \<longrightarrow> scaleY (applyIn now ov st) = scaleX (applyIn now ov st))"
  by (simp add: applyIn_def Let_def split: option.splits AnimType.splits)

section \<open>Undo and redo after a sequence of actions\<close>

text \<open>
  Claim C1, amended. Take a state whose tracks and selection are the history entry at the
  history index and whose history is within its capacity of 50 entries, and apply \<open>N\<close>
  calls, with \<open>N\<close> less than 50, that each take one history snapshot (\<open>addClip\<close> on a
  track that exists, \<open>removeClip\<close> of a clip that exists, \<open>splitClip\<close> strictly inside a
  clip that exists, \<open>removeTrack\<close> of a track that exists). Then \<open>N\<close> calls of \<open>undo\<close>
  raise nothing and restore the tracks and the selection of the state before the calls,
  and \<open>N\<close> calls of \<open>redo\<close> after that raise nothing and restore the tracks and the
  selection of the state after the calls.
\<close>

theorem undo_redo_round_trip:
  assumes "synced s" and "length (history s) \<le> maxHistorySize"
    and "run_snapshots es s" and "length es < maxHistorySize"
  shows "\<exists>s1 s2. undoTimes (length es) (run es s) = (None, s1) \<and>
           tracks s1 = tracks s \<and> selectedClipIds s1 = selectedClipIds s \<and>
           redoTimes (length es) s1 = (None, s2) \<and>
           tracks s2 = tracks (run es s) \<and> selectedClipIds s2 = selectedClipIds (run es s)"
proof (cases "es = []")
  case True
  then show ?thesis by simp
next
  case False
  define n where "n = length es"
  define post where "post = run es s"
  have n: "0 < n"
    using False by (simp add: n_def)
  have s: "0 \<le> historyIndex s" "historyIndex s < int (length (history s))"
    "history s ! nat (historyIndex s) =
       \<lparr> h_tracks = tracks s, h_selectedClipIds = selectedClipIds s \<rparr>"
    using synced_entry [OF assms(1)] by simp_all
  have r: "historyIndex post < int (length (history post))" "int n \<le> historyIndex post"
    "history post ! nat (historyIndex post - int n) = history s ! nat (historyIndex s)"
    "synced post"
    using run_history [OF assms(3) s(1,2) assms(2), of 0] assms(4) False s(1)
    by (simp_all add: post_def n_def)
  have p: "history post ! nat (historyIndex post) =
      \<lparr> h_tracks = tracks post, h_selectedClipIds = selectedClipIds post \<rparr>"
    using synced_entry [OF r(4)] by simp
  obtain s1 where s1: "undoTimes n post = (None, s1)"
    "historyIndex s1 = historyIndex post - int n" "history s1 = history post"
    "tracks s1 = tracks s" "selectedClipIds s1 = selectedClipIds s"
    using undoTimes_restores [OF r(2,1)] n r(3) s(3) by auto
  have fwd: "historyIndex s1 + int n = historyIndex post"
    using s1(2) by simp
  have "- 1 \<le> historyIndex s1" "historyIndex s1 + int n < int (length (history s1))"
    using s1(2,3) r(1,2) by simp_all
  then obtain s2 where s2: "redoTimes n s1 = (None, s2)" "tracks s2 = tracks post"
    "selectedClipIds s2 = selectedClipIds post"
    using redoTimes_restores [of s1 n] n p s1(3) fwd by auto
  show ?thesis
    using s1 s2 by (auto simp: n_def post_def)
qed

theorem undo_redo_round_trip_witness:
  "synced (storeOf [videoClip ''a'' 0 10 False] []) \<and>
   run_snapshots [SplitClip ''b'' (Some ''a'') 4, RemoveClip (Some ''a'')]
     (storeOf [videoClip ''a'' 0 10 False] []) \<and>
   length (history (storeOf [videoClip ''a'' 0 10 False] [])) \<le> maxHistorySize \<and>
   length [SplitClip ''b'' (Some ''a'') 4, RemoveClip (Some ''a'')] < maxHistorySize \<and>
   fst (undoTimes 2 (run [SplitClip ''b'' (Some ''a'') 4, RemoveClip (Some ''a'')]
     (storeOf [videoClip ''a'' 0 10 False] []))) = None \<and>
   tracks (snd (undoTimes 2 (run [SplitClip ''b'' (Some ''a'') 4, RemoveClip (Some ''a'')]
     (storeOf [videoClip ''a'' 0 10 False] [])))) = [videoTrack [videoClip ''a'' 0 10 False]] \<and>
   tracks (snd (redoTimes 2 (snd (undoTimes 2
     (run [SplitClip ''b'' (Some ''a'') 4, RemoveClip (Some ''a'')]
       (storeOf [videoClip ''a'' 0 10 False] [])))))) =
     tracks (run [SplitClip ''b'' (Some ''a'') 4, RemoveClip (Some ''a'')]
       (storeOf [videoClip ''a'' 0 10 False] []))"
proof -
  let ?s = "storeOf [videoClip ''a'' 0 10 False] []"
  let ?es = "[SplitClip ''b'' (Some ''a'') 4, RemoveClip (Some ''a'')]"
  have h1: "synced ?s"
    by (simp add: synced_def index_def storeOf_def initialStore_def)
  have h2: "run_snapshots ?es ?s"
    by (simp add: storeOf_def initialStore_def videoTrack_def videoClip_def splitClip_def
        modifyClipById_def hasClip_def spliceInsert_def deepCopy_def num_or_def Let_def)
  have h3: "length (history ?s) \<le> maxHistorySize"
    by (simp add: storeOf_def initialStore_def maxHistorySize_def)
  have h4: "length ?es < maxHistorySize"
    by (simp add: maxHistorySize_def)
  have t: "tracks ?s = [videoTrack [videoClip ''a'' 0 10 False]]"
    by (simp add: storeOf_def)
  have len: "length ?es = 2"
    by simp
  obtain s1 s2 where r: "undoTimes 2 (run ?es ?s) = (None, s1)" "tracks s1 = tracks ?s"
    "redoTimes 2 s1 = (None, s2)" "tracks s2 = tracks (run ?es ?s)"
    using undo_redo_round_trip [OF h1 h3 h2 h4] unfolding len by blast
  have "fst (undoTimes 2 (run ?es ?s)) = None \<and>
      tracks (snd (undoTimes 2 (run ?es ?s))) = [videoTrack [videoClip ''a'' 0 10 False]] \<and>
      tracks (snd (redoTimes 2 (snd (undoTimes 2 (run ?es ?s))))) = tracks (run ?es ?s)"
    by (simp only: r fst_conv snd_conv t)
  then show ?thesis
    using h1 h2 h3 h4 by blast
qed

text \<open>
  Claim C1 as stated fails for an action that takes no snapshot. The clip at [0, 10) is
  trimmed to start at 3 by one \<open>trimClipStart\<close>; one \<open>undo\<close> then goes back to the
  snapshot before the present one, that of the empty track, and not to the state before
  the trim, whose track holds the clip.
\<close>

theorem undo_after_trim_counterexample:
  "synced (storeOf [videoClip ''a'' 0 10 False] []) \<and>
   tracks (storeOf [videoClip ''a'' 0 10 False] []) = [videoTrack [videoClip ''a'' 0 10 False]] \<and>
   undoTimes 1 (run [TrimClipStart (Some ''a'') 3] (storeOf [videoClip ''a'' 0 10 False] [])) =
     (None, (storeOf [videoClip ''a'' 0 10 False] [])\<lparr>tracks := [videoTrack []], historyIndex := 0\<rparr>) \<and>
   clips (videoTrack []) \<noteq> clips (videoTrack [videoClip ''a'' 0 10 False])"
  by (simp add: synced_def index_def storeOf_def initialStore_def videoTrack_def videoClip_def
      trimClipStart_def modifyClipById_def hasClip_def num_or_def undo_def deepCopy_def Let_def)

section \<open>Splitting a clip\<close>

text \<open>
  Claim C2. Let \<open>c\<close> be the clip that \<open>splitClip\<close> finds for the id: the first clip with
  the id on the first track \<open>t\<close> that has one. For a split time \<open>m\<close> strictly inside the
  clip, \<open>splitClip\<close> returns the pair of the clip cut to end at \<open>m\<close> and of a second clip
  from \<open>m\<close> to the old end, whose \<open>sourceStartTime\<close> is that of the first plus the
  length of the first and whose selection flag is cleared; the second clip stands right
  after the first on the same track, nothing else on the tracks changes, and a history
  snapshot is taken. For a split time at or outside the bounds it returns null and the
  store is unchanged.
\<close>

theorem splitClip_partition:
  assumes "tracks s = pre @ t # post" and "\<forall>t' \<in> set pre. \<not> hasClip clipId t'"
    and "clips t = cpre @ c # cpost" and "\<forall>x \<in> set cpre. cid x \<noteq> clipId"
    and "cid c = clipId"
  shows "(startTime c < m \<and> m < endTime c \<longrightarrow>
            splitClip gid clipId m s =
              (Some (c\<lparr>endTime := m, duration := m - startTime c\<rparr>,
                     c\<lparr>cid := Some gid, startTime := m, duration := endTime c - m,
                       sourceStartTime := sourceStartTime c + (m - startTime c),
                       isSelected := False\<rparr>),
               saveHistory (s\<lparr>tracks := pre @
                  t\<lparr>clips := cpre @
                     c\<lparr>endTime := m, duration := m - startTime c\<rparr> #
                     c\<lparr>cid := Some gid, startTime := m, duration := endTime c - m,
                       sourceStartTime := sourceStartTime c + (m - startTime c),
                       isSelected := False\<rparr> # cpost\<rparr> # post\<rparr>))) \<and>
         (m \<le> startTime c \<or> endTime c \<le> m \<longrightarrow> splitClip gid clipId m s = (None, s))"
proof -
  have get: "getClipById clipId (tracks s) = Some c"
    using assms by (simp add: getClipById_first)
  have trk: "getTrackByClipId clipId (tracks s) = Some t"
    using assms by (simp add: getTrackByClipId_first)
  have has: "hasClip clipId t"
    using assms(3,5) by (auto simp: hasClip_def)
  have idx: "findIndex (\<lambda>x. cid x = clipId) (clips t) = Some (length cpre)"
    using assms(3-5) by (simp add: findIndex_first)
  have outside: "m \<le> startTime c \<or> endTime c \<le> m \<Longrightarrow> splitClip gid clipId m s = (None, s)"
    using get trk by (auto simp: splitClip_def)
  have src: "num_or (Some (sourceStartTime c)) 0 = sourceStartTime c"
    by (simp add: num_or_def)
  have inner: "\<And>c1. modifyFirst (\<lambda>x. cid x = clipId) (\<lambda>_. c1) (clips t) = cpre @ c1 # cpost"
    using assms(3-5) by (simp add: modifyFirst_first)
  have ins: "\<And>c1 c2. spliceInsert (Suc (length cpre)) c2 (cpre @ c1 # cpost) = cpre @ c1 # c2 # cpost"
    by (simp add: spliceInsert_def)
  have outer: "\<And>f. modifyFirst (hasClip clipId) f (tracks s) = pre @ f t # post"
    using assms(1,2) has by (simp add: modifyFirst_first)
  have inside: "startTime c < m \<and> m < endTime c \<Longrightarrow> ?thesis"
    using get trk idx src
    by (simp add: splitClip_def Let_def deepCopy_def inner ins outer)
  show ?thesis
    using outside inside by (cases "startTime c < m \<and> m < endTime c") auto
qed

theorem splitClip_partition_witness:
  "tracks (storeOf [videoClip ''a'' 0 10 False] []) = [] @ videoTrack [videoClip ''a'' 0 10 False] # [] \<and>
   clips (videoTrack [videoClip ''a'' 0 10 False]) = [] @ videoClip ''a'' 0 10 False # [] \<and>
   cid (videoClip ''a'' 0 10 False) = Some ''a'' \<and>
   fst (splitClip ''b'' (Some ''a'') 4 (storeOf [videoClip ''a'' 0 10 False] [])) =
     Some (videoClip ''a'' 0 4 False, (videoClip ''b'' 4 10 False)\<lparr>sourceStartTime := 4\<rparr>) \<and>
   tracks (snd (splitClip ''b'' (Some ''a'') 4 (storeOf [videoClip ''a'' 0 10 False] []))) =
     [videoTrack [videoClip ''a'' 0 4 False, (videoClip ''b'' 4 10 False)\<lparr>sourceStartTime := 4\<rparr>]]"
proof -
  have h1: "tracks (storeOf [videoClip ''a'' 0 10 False] []) =
              [] @ videoTrack [videoClip ''a'' 0 10 False] # []"
    by (simp add: storeOf_def)
  have h2: "\<forall>t' \<in> set []. \<not> hasClip (Some ''a'') t'"
    by simp
  have h3: "clips (videoTrack [videoClip ''a'' 0 10 False]) = [] @ videoClip ''a'' 0 10 False # []"
    by (simp add: videoTrack_def)
  have h4: "\<forall>x \<in> set []. cid x \<noteq> Some ''a''"
    by simp
  have h5: "cid (videoClip ''a'' 0 10 False) = Some ''a''"
    by (simp add: videoClip_def)
  have tr: "\<And>x. tracks (saveHistory x) = tracks x"
    by (simp add: saveHistory_def Let_def)
  show ?thesis
    using splitClip_partition [OF h1 h2 h3 h4 h5, of 4 "''b''"] h1 h3
    by (simp add: videoClip_def videoTrack_def tr)
qed

section \<open>The times of a clip under sequences of actions\<close>

text \<open>
  Claim C3, amended. Start from a valid state: every clip on the tracks, on the clipboard
  and in the history entries has a start that is not negative, an end after its start and
  a duration equal to end minus start, and the playhead is not negative. Run any sequence
  of \<open>addClip\<close>, \<open>updateClip\<close>, \<open>splitClip\<close>, \<open>moveClip\<close>, \<open>trimClipStart\<close>,
  \<open>trimClipEnd\<close>, \<open>pasteClips\<close>, \<open>duplicateSelectedClips\<close>, \<open>undo\<close>, \<open>redo\<close>,
  \<open>removeClip\<close>, \<open>removeTrack\<close>, the selection actions and \<open>copySelectedClips\<close>, in
  which every call of \<open>addClip\<close> and of \<open>updateClip\<close> is given either none of
  \<open>startTime\<close>, \<open>endTime\<close> and \<open>duration\<close>, or all three with \<open>startTime \<ge> 0\<close>,
  \<open>endTime > startTime\<close> and \<open>duration = endTime - startTime\<close>. Then the state is valid
  again, and on every track every clip has its end after its start and its duration equal
  to end minus start (within floating-point epsilon in the program; the numbers here are
  real numbers, for which the equality is exact). The condition is on what the caller
  passes, and on nothing that the two actions compute.
\<close>

theorem edits_keep_clip_times:
  assumes "state_ok s" and "list_all times_input_ok es"
  shows "state_ok (run es s) \<and>
         (\<forall>t \<in> set (tracks (run es s)). \<forall>c \<in> set (clips t).
            endTime c > startTime c \<and> duration c = endTime c - startTime c)"
proof -
  have "state_ok (run es s)"
    using assms by (rule state_ok_run)
  then show ?thesis
    by (auto simp: state_ok_def tracks_ok_def clip_ok_def)
qed

theorem edits_keep_clip_times_witness:
  "state_ok (storeOf [videoClip ''a'' 0 10 False] []) \<and>
   list_all times_input_ok
     [MoveClip (Some ''a'') 2 None, SplitClip ''b'' (Some ''a'') 4,
      TrimClipStart (Some ''a'') 3,
      UpdateClip (Some ''b'')
        (noData\<lparr>p_startTime := Some 6, p_endTime := Some 12, p_duration := Some 6\<rparr>),
      UpdateClip (Some ''a'') (noData\<lparr>p_isSelected := Some True\<rparr>),
      AddClip ''c'' ''v1'' noData] \<and>
   state_ok (run
     [MoveClip (Some ''a'') 2 None, SplitClip ''b'' (Some ''a'') 4,
      TrimClipStart (Some ''a'') 3,
      UpdateClip (Some ''b'')
        (noData\<lparr>p_startTime := Some 6, p_endTime := Some 12, p_duration := Some 6\<rparr>),
      UpdateClip (Some ''a'') (noData\<lparr>p_isSelected := Some True\<rparr>),
      AddClip ''c'' ''v1'' noData]
     (storeOf [videoClip ''a'' 0 10 False] [])) \<and>
   map (\<lambda>c. (startTime c, endTime c, duration c)) (allClips (tracks (run
     [MoveClip (Some ''a'') 2 None, SplitClip ''b'' (Some ''a'') 4,
      TrimClipStart (Some ''a'') 3,
      UpdateClip (Some ''b'')
        (noData\<lparr>p_startTime := Some 6, p_endTime := Some 12, p_duration := Some 6\<rparr>),
      UpdateClip (Some ''a'') (noData\<lparr>p_isSelected := Some True\<rparr>),
      AddClip ''c'' ''v1'' noData]
     (storeOf [videoClip ''a'' 0 10 False] [])))) = [(3, 4, 1), (6, 12, 6), (0, 5, 5)]"
proof -
  let ?s = "storeOf [videoClip ''a'' 0 10 False] []"
  let ?es = "[MoveClip (Some ''a'') 2 None, SplitClip ''b'' (Some ''a'') 4,
      TrimClipStart (Some ''a'') 3,
      UpdateClip (Some ''b'')
        (noData\<lparr>p_startTime := Some 6, p_endTime := Some 12, p_duration := Some 6\<rparr>),
      UpdateClip (Some ''a'') (noData\<lparr>p_isSelected := Some True\<rparr>),
      AddClip ''c'' ''v1'' noData]"
  have h1: "state_ok ?s"
    by (rule state_ok_storeOf) (simp add: clip_ok_def videoClip_def)
  have h2: "list_all times_input_ok ?es"
    by (simp add: timesGiven_ok_def noData_def)
  have t2: "map (\<lambda>c. (startTime c, endTime c, duration c)) (allClips (tracks (run ?es ?s))) =
      [(3, 4, 1), (6, 12, 6), (0, 5, 5)]"
    by (simp add: storeOf_def initialStore_def videoTrack_def videoClip_def splitClip_def
        trimClipStart_def modifyClipById_def hasClip_def spliceInsert_def deepCopy_def
        num_or_def allClips_def Let_def noData_def assign_def assignProps_def updateClip_def
        addClip_def moveClip_def getSnappedTime_def snapPoints_def nearPoint_def)
  show ?thesis
    using edits_keep_clip_times [OF h1 h2] h1 h2 t2 by simp
qed

text \<open>
  Claim C3 as stated fails for \<open>updateClip\<close> and for \<open>addClip\<close>, which store the times
  they are given and recompute nothing. \<open>updateClip\<close> with the start 20 alone, on the clip
  at [5, 10), leaves the end at 10 and the duration at 5. \<open>addClip\<close> with the start 20
  alone, with the playhead at 0, builds a clip with the end 5 and the duration 5.
\<close>

theorem clip_times_counterexample:
  "state_ok (storeOf [videoClip ''a'' 5 10 False] []) \<and>
   map startTime (allClips (tracks (run
     [UpdateClip (Some ''a'') (noData\<lparr>p_startTime := Some 20\<rparr>)]
     (storeOf [videoClip ''a'' 5 10 False] [])))) = [20] \<and>
   map endTime (allClips (tracks (run
     [UpdateClip (Some ''a'') (noData\<lparr>p_startTime := Some 20\<rparr>)]
     (storeOf [videoClip ''a'' 5 10 False] [])))) = [10] \<and>
   map duration (allClips (tracks (run
     [UpdateClip (Some ''a'') (noData\<lparr>p_startTime := Some 20\<rparr>)]
     (storeOf [videoClip ''a'' 5 10 False] [])))) = [5] \<and>
   \<not> (10 > (20::real)) \<and> (5::real) \<noteq> 10 - 20 \<and>
   state_ok (storeOf [] []) \<and>
   map startTime (allClips (tracks (run
     [AddClip ''c'' ''v1'' (noData\<lparr>p_startTime := Some 20\<rparr>)] (storeOf [] [])))) = [20] \<and>
   map endTime (allClips (tracks (run
     [AddClip ''c'' ''v1'' (noData\<lparr>p_startTime := Some 20\<rparr>)] (storeOf [] [])))) = [5] \<and>
   map duration (allClips (tracks (run
     [AddClip ''c'' ''v1'' (noData\<lparr>p_startTime := Some 20\<rparr>)] (storeOf [] [])))) = [5] \<and>
   \<not> (5 > (20::real)) \<and> (5::real) \<noteq> 5 - 20"
proof -
  have u: "state_ok (storeOf [videoClip ''a'' 5 10 False] [])"
    by (rule state_ok_storeOf) (simp add: clip_ok_def videoClip_def)
  have a: "state_ok (storeOf [] [])"
    by (rule state_ok_storeOf) simp
  show ?thesis
    using u a
    by (simp add: storeOf_def initialStore_def videoTrack_def videoClip_def noData_def
        assign_def assignProps_def updateClip_def addClip_def num_or_def modifyClipById_def
        hasClip_def allClips_def Let_def)
qed

section \<open>Pasting the clipboard\<close>

text \<open>
  Claim C4, evaluated on its own scenario: the clips [2, 5) and [5, 8) are copied with the
  playhead at 0 and pasted with the playhead at 10, onto the first track of their type,
  which is unlocked. The two new clips are at [10, 13) and [13, 16), as the claim says,
  and for every value \<open>generateId\<close> returns both have the id \<open>undefined\<close>: the claim's
  fresh and distinct ids are not what the code assigns.
\<close>

theorem pasteClips_ids_undefined:
  "map (\<lambda>c. (cid c, startTime c, endTime c)) (allClips (tracks (pasteClips gen pasteStore))) =
     [(Some ''a'', 2, 5), (Some ''b'', 5, 8), (None, 10, 13), (None, 13, 16)]"
  by (simp add: pasteClips_def pasteStore_def copySelectedClips_def selectedClips_def
      storeOf_def initialStore_def videoTrack_def videoClip_def allClips_def deepCopy_def
      addClip_def assign_def spread_def num_or_def Let_def)

section \<open>Moving a clip with snapping\<close>

text \<open>
  Claim C5. With snapping enabled, \<open>moveClip\<close> of a clip that exists snaps the requested
  start: the snapped time is the first candidate, in the fixed order [0, playhead, then
  start and end of every clip whose id is not the moved one, track by track], that is
  nearer to the requested time than the threshold, and the requested time itself, left
  unchanged, when no candidate is. For a zoom other than 0 a candidate is near when its
  distance from the requested time is less than snapThreshold / (100 * timelineZoom).
  The clip with the id then starts at the snapped time, after the clamp to 0 that
  \<open>moveClip\<close> applies to every start: exactly at the snapped time when the request and
  the candidates are not negative, as they are in a valid state. With no destination
  track the store after the move is the store before it with the start of that clip set
  so, its end set to the new start plus (end minus start), and the project duration
  recomputed. The snapped time is a function of the store and the request, so the result
  is deterministic.
\<close>

theorem moveClip_snaps:
  assumes "getClipById clipId (tracks s) = Some c" and "isSnappingEnabled s"
  shows "(\<exists>c'. c' \<in> set (allClips (tracks (moveClip clipId t newTrackId s))) \<and>
              cid c' = clipId \<and>
              startTime c' = max 0 (getSnappedTime t clipId s) \<and>
              (0 \<le> t \<and> (\<forall>p \<in> set (snapPoints clipId s). 0 \<le> p) \<longrightarrow>
                 startTime c' = getSnappedTime t clipId s)) \<and>
         (state_ok s \<longrightarrow> (\<forall>p \<in> set (snapPoints clipId s). 0 \<le> p)) \<and>
         moveClip clipId t None s =
           updateProjectDuration (s\<lparr>tracks := modifyClipById clipId
              (\<lambda>_. c\<lparr>startTime := max 0 (getSnappedTime t clipId s),
                      endTime := max 0 (getSnappedTime t clipId s) + (endTime c - startTime c)\<rparr>)
              (tracks s)\<rparr>) \<and>
         ((\<forall>p \<in> set (snapPoints clipId s). \<not> nearPoint s t p) \<longrightarrow>
            getSnappedTime t clipId s = t) \<and>
         (\<forall>ps p qs. snapPoints clipId s = ps @ p # qs \<and> (\<forall>q \<in> set ps. \<not> nearPoint s t q) \<and>
            nearPoint s t p \<longrightarrow> getSnappedTime t clipId s = p) \<and>
         snapPoints clipId s =
           0 # currentTime s #
           concat (map (\<lambda>x. [startTime x, endTime x])
                     (filter (\<lambda>x. cid x \<noteq> clipId) (allClips (tracks s)))) \<and>
         (timelineZoom s \<noteq> 0 \<longrightarrow>
            (\<forall>p. nearPoint s t p = (\<bar>t - p\<bar> < snapThreshold s / (100 * timelineZoom s))))"
proof -
  define n where "n = max 0 (getSnappedTime t clipId s)"
  define c' where "c' = c\<lparr>startTime := n, endTime := n + (endTime c - startTime c)\<rparr>"
  define ts1 where "ts1 = modifyClipById clipId (\<lambda>_. c') (tracks s)"
  have cid: "cid c' = clipId"
    using assms(1) by (simp add: c'_def getClipById_cid)
  have has: "\<exists>t \<in> set (tracks s). hasClip clipId t"
    using assms(1) getClipById_None_iff [of clipId "tracks s"] by auto
  then obtain trk where trk: "getTrackByClipId clipId (tracks s) = Some trk"
    using getTrackByClipId_None_iff [of clipId "tracks s"] by auto
  have "getClipById clipId ts1 = Some c'"
    using assms(1) cid unfolding ts1_def by (rule getClipById_write)
  then have mem1: "c' \<in> set (allClips ts1)"
    by (rule getClipById_mem)
  have none: "moveClip clipId t None s = updateProjectDuration (s\<lparr>tracks := ts1\<rparr>)"
    using assms trk by (simp add: moveClip_def Let_def ts1_def c'_def n_def)
  have "\<exists>x. x \<in> set (allClips (tracks (moveClip clipId t newTrackId s))) \<and>
          cid x = clipId \<and> startTime x = n \<and> endTime x = startTime x + (endTime c - startTime c)"
  proof (cases "\<exists>nt newTrack. newTrackId = Some nt \<and> nt \<noteq> [] \<and> nt \<noteq> tid trk \<and>
      find (\<lambda>t. tid t = nt) ts1 = Some newTrack \<and> ttype newTrack = ttype trk")
    case True
    then obtain nt newTrack where nt: "newTrackId = Some nt" "nt \<noteq> []" "nt \<noteq> tid trk"
      "find (\<lambda>t. tid t = nt) ts1 = Some newTrack" "ttype newTrack = ttype trk"
      by blast
    define ts0 where "ts0 = modifyFirst (hasClip clipId)
        (\<lambda>t. t\<lparr>clips := removeFirst (\<lambda>c. cid c = clipId) (clips t)\<rparr>) ts1"
    have "nt \<in> set (map tid ts1)"
      using nt(4) find_tid_None_iff [of nt ts1] by auto
    moreover have "map tid ts0 = map tid ts1"
      by (simp add: ts0_def set_map_modifyFirst)
    ultimately have "\<exists>t \<in> set ts0. tid t = nt"
      by (metis (no_types, lifting) image_iff list.set_map)
    then have "c'\<lparr>trackId := nt\<rparr> \<in> set (allClips (modifyFirst (\<lambda>t. tid t = nt)
        (\<lambda>t. t\<lparr>clips := clips t @ [c'\<lparr>trackId := nt\<rparr>]\<rparr>) ts0))"
      by (rule pushed_clip_mem)
    moreover have "moveClip clipId t newTrackId s =
        updateProjectDuration (s\<lparr>tracks := modifyFirst (\<lambda>t. tid t = nt)
          (\<lambda>t. t\<lparr>clips := clips t @ [c'\<lparr>trackId := nt\<rparr>]\<rparr>) ts0\<rparr>)"
      using assms trk nt by (simp add: moveClip_def Let_def ts1_def [symmetric] c'_def [symmetric]
          n_def [symmetric] ts0_def)
    ultimately show ?thesis
      using cid by (intro exI [of _ "c'\<lparr>trackId := nt\<rparr>"]) (simp add: c'_def)
  next
    case False
    then have "moveClip clipId t newTrackId s = updateProjectDuration (s\<lparr>tracks := ts1\<rparr>)"
      using assms trk
      by (auto simp: moveClip_def Let_def ts1_def [symmetric] c'_def [symmetric]
          n_def [symmetric] split: option.splits)
    then show ?thesis
      using mem1 cid by (intro exI [of _ c']) (simp add: c'_def)
  qed
  then obtain x where x: "x \<in> set (allClips (tracks (moveClip clipId t newTrackId s)))"
    "cid x = clipId" "startTime x = max 0 (getSnappedTime t clipId s)"
    by (auto simp: n_def)
  have nonneg: "0 \<le> t \<and> (\<forall>p \<in> set (snapPoints clipId s). 0 \<le> p) \<longrightarrow>
      0 \<le> getSnappedTime t clipId s"
    by (auto simp: getSnappedTime_def find_Some_iff split: option.splits)
  have moved: "\<exists>c'. c' \<in> set (allClips (tracks (moveClip clipId t newTrackId s))) \<and>
      cid c' = clipId \<and> startTime c' = max 0 (getSnappedTime t clipId s) \<and>
      (0 \<le> t \<and> (\<forall>p \<in> set (snapPoints clipId s). 0 \<le> p) \<longrightarrow>
         startTime c' = getSnappedTime t clipId s)"
    using x nonneg by (intro exI [of _ x]) auto
  have valid: "state_ok s \<longrightarrow> (\<forall>p \<in> set (snapPoints clipId s). 0 \<le> p)"
  proof
    assume ok: "state_ok s"
    have "\<forall>x \<in> set (allClips (tracks s)). 0 \<le> startTime x \<and> 0 \<le> endTime x"
      using ok by (fastforce simp: state_ok_def tracks_ok_def clip_ok_def allClips_def)
    then show "\<forall>p \<in> set (snapPoints clipId s). 0 \<le> p"
      using ok by (auto simp: snapPoints_def state_ok_def)
  qed
  have far: "(\<forall>p \<in> set (snapPoints clipId s). \<not> nearPoint s t p) \<longrightarrow> getSnappedTime t clipId s = t"
  proof
    assume "\<forall>p \<in> set (snapPoints clipId s). \<not> nearPoint s t p"
    then have "find (nearPoint s t) (snapPoints clipId s) = None"
      by (simp add: find_None_iff)
    then show "getSnappedTime t clipId s = t"
      by (simp add: getSnappedTime_def)
  qed
  have first: "\<forall>ps p qs. snapPoints clipId s = ps @ p # qs \<and> (\<forall>q \<in> set ps. \<not> nearPoint s t q) \<and>
      nearPoint s t p \<longrightarrow> getSnappedTime t clipId s = p"
    by (auto simp: getSnappedTime_def find_first)
  have pts: "snapPoints clipId s = 0 # currentTime s #
      concat (map (\<lambda>x. [startTime x, endTime x]) (filter (\<lambda>x. cid x \<noteq> clipId) (allClips (tracks s))))"
    by (simp add: snapPoints_def)
  have near: "timelineZoom s \<noteq> 0 \<longrightarrow>
      (\<forall>p. nearPoint s t p = (\<bar>t - p\<bar> < snapThreshold s / (100 * timelineZoom s)))"
    by (simp add: nearPoint_def Let_def)
  show ?thesis
    using moved valid none far first pts near by (simp add: ts1_def c'_def n_def)
qed

theorem moveClip_snaps_witness:
  "getClipById (Some ''a'')
     (tracks (storeOf [videoClip ''a'' 5 10 False, videoClip ''b'' 20 30 False] [])) =
     Some (videoClip ''a'' 5 10 False) \<and>
   isSnappingEnabled (storeOf [videoClip ''a'' 5 10 False, videoClip ''b'' 20 30 False] []) \<and>
   snapPoints (Some ''a'') (storeOf [videoClip ''a'' 5 10 False, videoClip ''b'' 20 30 False] []) =
     [0, 0, 20, 30] \<and>
   tracks (moveClip (Some ''a'') (399 / 20) None
     (storeOf [videoClip ''a'' 5 10 False, videoClip ''b'' 20 30 False] [])) =
     [videoTrack [videoClip ''a'' 20 25 False, videoClip ''b'' 20 30 False]] \<and>
   tracks (moveClip (Some ''a'') (99 / 5) None
     (storeOf [videoClip ''a'' 5 10 False, videoClip ''b'' 20 30 False] [])) =
     [videoTrack [videoClip ''a'' (99 / 5) (124 / 5) False, videoClip ''b'' 20 30 False]]"
proof -
  let ?s = "storeOf [videoClip ''a'' 5 10 False, videoClip ''b'' 20 30 False] []"
  have h1: "getClipById (Some ''a'') (tracks ?s) = Some (videoClip ''a'' 5 10 False)"
    by (simp add: storeOf_def videoTrack_def videoClip_def)
  have h2: "isSnappingEnabled ?s"
    by (simp add: storeOf_def initialStore_def)
  have pts: "snapPoints (Some ''a'') ?s = [0, 0, 20, 30]"
    by (simp add: snapPoints_def storeOf_def initialStore_def videoTrack_def videoClip_def
        allClips_def)
  have near: "\<And>t p. nearPoint ?s t p = (\<bar>t - p\<bar> < 1 / 10)"
    by (simp add: nearPoint_def storeOf_def initialStore_def)
  have snap1: "getSnappedTime (399 / 20) (Some ''a'') ?s = 20"
    by (simp add: getSnappedTime_def pts near)
  have snap2: "getSnappedTime (99 / 5) (Some ''a'') ?s = 99 / 5"
    by (simp add: getSnappedTime_def pts near)
  have wr: "\<And>c'. modifyClipById (Some ''a'') (\<lambda>_. c') (tracks ?s) =
      [videoTrack [c', videoClip ''b'' 20 30 False]]"
    by (simp add: modifyClipById_def hasClip_def storeOf_def videoTrack_def videoClip_def)
  have v: "startTime (videoClip ''a'' 5 10 False) = 5 \<and> endTime (videoClip ''a'' 5 10 False) = 10"
    by (simp add: videoClip_def)
  have m1: "tracks (moveClip (Some ''a'') (399 / 20) None ?s) =
      [videoTrack [(videoClip ''a'' 5 10 False)\<lparr>startTime := 20, endTime := 25\<rparr>,
         videoClip ''b'' 20 30 False]]"
    using moveClip_snaps [OF h1 h2, of "399 / 20" None] by (simp add: snap1 wr v)
  have m2: "tracks (moveClip (Some ''a'') (99 / 5) None ?s) =
      [videoTrack [(videoClip ''a'' 5 10 False)\<lparr>startTime := 99 / 5, endTime := 124 / 5\<rparr>,
         videoClip ''b'' 20 30 False]]"
    using moveClip_snaps [OF h1 h2, of "99 / 5" None] by (simp add: snap2 wr v)
  have r1: "(videoClip ''a'' 5 10 False)\<lparr>startTime := 20, endTime := 25\<rparr> = videoClip ''a'' 20 25 False"
    by (simp add: videoClip_def)
  have r2: "(videoClip ''a'' 5 10 False)\<lparr>startTime := 99 / 5, endTime := 124 / 5\<rparr> =
      videoClip ''a'' (99 / 5) (124 / 5) False"
    by (simp add: videoClip_def)
  show ?thesis
    using h1 h2 pts m1 m2 by (simp only: r1 r2)
qed

section \<open>Trimming the start of a clip\<close>

text \<open>
  Claim C6, amended. For a clip that ends at 0.1 or later and every requested start,
  \<open>trimClipStart\<close> sets the start to the request clamped to [0, endTime - 0.1], moves
  \<open>sourceStartTime\<close> by the same delta as the start, recomputes the duration and leaves
  the end and every other property of the clip, and the rest of the store, unchanged.
  (For a clip that ends before 0.1 the new start is 0, which is above endTime - 0.1.)
\<close>

theorem trimClipStart_clamps:
  assumes "getClipById clipId (tracks s) = Some c" and "1 / 10 \<le> endTime c"
  shows "\<exists>c'. getClipById clipId (tracks (trimClipStart clipId t s)) = Some c' \<and>
           trimClipStart clipId t s = s\<lparr>tracks := modifyClipById clipId (\<lambda>_. c') (tracks s)\<rparr> \<and>
           startTime c' = max 0 (min (endTime c - 1 / 10) t) \<and>
           0 \<le> startTime c' \<and> startTime c' \<le> endTime c - 1 / 10 \<and>
           sourceStartTime c' - sourceStartTime c = startTime c' - startTime c \<and>
           duration c' = endTime c' - startTime c' \<and>
           endTime c' = endTime c \<and>
           cid c' = cid c \<and> trackId c' = trackId c \<and> isSelected c' = isSelected c \<and>
           ctype c' = ctype c \<and> props c' = props c"
proof -
  define n where "n = max 0 (min (endTime c - 1 / 10) t)"
  define c' where "c' = c\<lparr>startTime := n,
      sourceStartTime := num_or (Some (sourceStartTime c)) 0 + (n - startTime c),
      duration := endTime c - n\<rparr>"
  have tr: "trimClipStart clipId t s = s\<lparr>tracks := modifyClipById clipId (\<lambda>_. c') (tracks s)\<rparr>"
    using assms(1) by (simp add: trimClipStart_def Let_def n_def c'_def)
  have "cid c = clipId"
    using assms(1) by (rule getClipById_cid)
  then have "cid c' = clipId"
    by (simp add: c'_def)
  then have get: "getClipById clipId (tracks (trimClipStart clipId t s)) = Some c'"
    using assms(1) by (simp add: tr getClipById_write)
  have src: "num_or (Some (sourceStartTime c)) 0 = sourceStartTime c"
    by (simp add: num_or_def)
  have range: "0 \<le> n \<and> n \<le> endTime c - 1 / 10"
    using assms(2) by (simp add: n_def)
  show ?thesis
    apply (rule exI [of _ c'])
    using get tr src range by (simp add: c'_def n_def)
qed

theorem trimClipStart_clamps_witness:
  "getClipById (Some ''a'') (tracks (storeOf [videoClip ''a'' 0 10 False] [])) =
     Some (videoClip ''a'' 0 10 False) \<and>
   1 / 10 \<le> endTime (videoClip ''a'' 0 10 False) \<and>
   (\<exists>c'. getClipById (Some ''a'')
            (tracks (trimClipStart (Some ''a'') 3 (storeOf [videoClip ''a'' 0 10 False] []))) = Some c' \<and>
         startTime c' = 3 \<and> sourceStartTime c' = 3 \<and> endTime c' = 10 \<and> duration c' = 7)"
proof -
  have h1: "getClipById (Some ''a'') (tracks (storeOf [videoClip ''a'' 0 10 False] [])) =
              Some (videoClip ''a'' 0 10 False)"
    by (simp add: storeOf_def videoTrack_def videoClip_def)
  have h2: "1 / 10 \<le> endTime (videoClip ''a'' 0 10 False)"
    by (simp add: videoClip_def)
  have v: "startTime (videoClip ''a'' 0 10 False) = 0 \<and> endTime (videoClip ''a'' 0 10 False) = 10 \<and>
           sourceStartTime (videoClip ''a'' 0 10 False) = 0"
    by (simp add: videoClip_def)
  from trimClipStart_clamps [OF h1 h2, of 3] obtain c' where
    "getClipById (Some ''a'')
       (tracks (trimClipStart (Some ''a'') 3 (storeOf [videoClip ''a'' 0 10 False] []))) = Some c'"
    "startTime c' = max 0 (min (endTime (videoClip ''a'' 0 10 False) - 1 / 10) 3)"
    "sourceStartTime c' - sourceStartTime (videoClip ''a'' 0 10 False) =
       startTime c' - startTime (videoClip ''a'' 0 10 False)"
    "duration c' = endTime c' - startTime c'" "endTime c' = endTime (videoClip ''a'' 0 10 False)"
    by blast
  then have "getClipById (Some ''a'')
       (tracks (trimClipStart (Some ''a'') 3 (storeOf [videoClip ''a'' 0 10 False] []))) = Some c' \<and>
         startTime c' = 3 \<and> sourceStartTime c' = 3 \<and> endTime c' = 10 \<and> duration c' = 7"
    using v by simp
  then show ?thesis
    using h1 h2 by blast
qed

text \<open>
  Claim C6 as stated fails for a clip that ends before 0.1, such as the first half of a
  clip split at 0.05: the new start is 0, outside [0, endTime - 0.1].
\<close>

theorem trimClipStart_short_clip_counterexample:
  "getClipById (Some ''a'') (tracks (storeOf [videoClip ''a'' 0 (1 / 20) False] [])) =
     Some (videoClip ''a'' 0 (1 / 20) False) \<and>
   getClipById (Some ''a'')
     (tracks (trimClipStart (Some ''a'') (3 / 100) (storeOf [videoClip ''a'' 0 (1 / 20) False] []))) =
     Some (videoClip ''a'' 0 (1 / 20) False) \<and>
   \<not> (startTime (videoClip ''a'' 0 (1 / 20) False) \<le> endTime (videoClip ''a'' 0 (1 / 20) False) - 1 / 10)"
  by (simp add: storeOf_def videoTrack_def videoClip_def trimClipStart_def modifyClipById_def
      hasClip_def num_or_def Let_def)

section \<open>Actions on a clip or track that does not exist\<close>

text \<open>
  Claim C7, amended. When no clip has the id \<open>clipId\<close> and no track has the id
  \<open>trackId'\<close>, then \<open>addClip\<close> on the track and \<open>splitClip\<close> of the clip return null,
  \<open>moveClip\<close>, \<open>trimClipStart\<close>, \<open>trimClipEnd\<close>, \<open>updateClip\<close> and \<open>removeClip\<close> of the
  clip return without a value, and all of them leave the whole store (tracks, selection
  and history among it) unchanged; none of them has a path that raises. When the clip
  exists and only the destination track of \<open>moveClip\<close> is missing, the move is the move
  with no destination: the clip is moved in time and stays on its track.
\<close>

theorem missing_reference_noop:
  assumes "getClipById clipId (tracks s) = None" and "trackId' \<notin> set (map tid (tracks s))"
  shows "addClip gid trackId' clipData s = (None, s) \<and>
         splitClip gid clipId m s = (None, s) \<and>
         moveClip clipId t newTrackId s = s \<and>
         trimClipStart clipId t s = s \<and>
         trimClipEnd clipId t s = s \<and>
         updateClip clipId updates s = s \<and>
         removeClip clipId s = s \<and>
         moveClip otherId t (Some trackId') s = moveClip otherId t None s"
proof -
  have nt: "find (\<lambda>t. tid t = trackId') (tracks s) = None"
    using assms(2) by (simp add: find_tid_None_iff)
  have nh: "\<forall>t \<in> set (tracks s). \<not> hasClip clipId t"
    using assms(1) by (simp add: getClipById_None_iff)
  have add: "addClip gid trackId' clipData s = (None, s)"
    using nt by (simp add: addClip_def)
  have split: "splitClip gid clipId m s = (None, s)"
    using assms(1) by (simp add: splitClip_def)
  have move: "moveClip clipId t newTrackId s = s"
    using assms(1) by (simp add: moveClip_def)
  have trims: "trimClipStart clipId t s = s \<and> trimClipEnd clipId t s = s"
    using assms(1) by (simp add: trimClipStart_def trimClipEnd_def)
  have upd: "updateClip clipId updates s = s"
    using assms(1) by (simp add: updateClip_def)
  have rem: "removeClip clipId s = s"
    using nh by (simp add: removeClip_def)
  have "\<And>c'. map tid (modifyClipById otherId (\<lambda>_. c') (tracks s)) = map tid (tracks s)"
    by (simp add: modifyClipById_def set_map_modifyFirst)
  then have "\<And>c'. find (\<lambda>t. tid t = trackId') (modifyClipById otherId (\<lambda>_. c') (tracks s)) = None"
    using assms(2) by (simp only: find_tid_None_iff) simp
  then have dest: "moveClip otherId t (Some trackId') s = moveClip otherId t None s"
    by (simp add: moveClip_def Let_def split: option.splits)
  show ?thesis
    using add split move trims upd rem dest by simp
qed

theorem missing_reference_noop_witness:
  "getClipById (Some ''zz'') (tracks (storeOf [videoClip ''a'' 5 10 False] [])) = None \<and>
   ''nope'' \<notin> set (map tid (tracks (storeOf [videoClip ''a'' 5 10 False] []))) \<and>
   addClip ''g'' ''nope'' noData (storeOf [videoClip ''a'' 5 10 False] []) =
     (None, storeOf [videoClip ''a'' 5 10 False] []) \<and>
   splitClip ''g'' (Some ''zz'') 7 (storeOf [videoClip ''a'' 5 10 False] []) =
     (None, storeOf [videoClip ''a'' 5 10 False] []) \<and>
   moveClip (Some ''zz'') 7 (Some ''v1'') (storeOf [videoClip ''a'' 5 10 False] []) =
     storeOf [videoClip ''a'' 5 10 False] [] \<and>
   trimClipStart (Some ''zz'') 7 (storeOf [videoClip ''a'' 5 10 False] []) =
     storeOf [videoClip ''a'' 5 10 False] [] \<and>
   trimClipEnd (Some ''zz'') 7 (storeOf [videoClip ''a'' 5 10 False] []) =
     storeOf [videoClip ''a'' 5 10 False] [] \<and>
   updateClip (Some ''zz'') noData (storeOf [videoClip ''a'' 5 10 False] []) =
     storeOf [videoClip ''a'' 5 10 False] [] \<and>
   removeClip (Some ''zz'') (storeOf [videoClip ''a'' 5 10 False] []) =
     storeOf [videoClip ''a'' 5 10 False] []"
proof -
  have h1: "getClipById (Some ''zz'') (tracks (storeOf [videoClip ''a'' 5 10 False] [])) = None"
    by (simp add: storeOf_def videoTrack_def videoClip_def)
  have h2: "''nope'' \<notin> set (map tid (tracks (storeOf [videoClip ''a'' 5 10 False] [])))"
    by (simp add: storeOf_def videoTrack_def)
  show ?thesis
    using missing_reference_noop [OF h1 h2, of "''g''" noData 7 7 "Some ''v1''" noData "Some ''a''"]
      h1 h2
    by simp
qed

text \<open>
  Claim C7 as stated covers \<open>moveClip\<close> called with a track id that does not exist: the
  clip at [5, 10) is moved to start at 20 all the same.
\<close>

theorem moveClip_missing_track_counterexample:
  "''nope'' \<notin> set (map tid (tracks (storeOf [videoClip ''a'' 5 10 False] []))) \<and>
   map startTime (allClips (tracks (storeOf [videoClip ''a'' 5 10 False] []))) = [5] \<and>
   map startTime (allClips (tracks
     (moveClip (Some ''a'') 20 (Some ''nope'') (storeOf [videoClip ''a'' 5 10 False] [])))) = [20]"
  by (simp add: storeOf_def videoTrack_def videoClip_def initialStore_def allClips_def
      moveClip_def getSnappedTime_def snapPoints_def nearPoint_def modifyClipById_def
      hasClip_def updateProjectDuration_def Let_def)

section \<open>Selection flags and selected ids\<close>

text \<open>
  Claim C8, evaluated where it fails: \<open>duplicateSelectedClips\<close> on two selected clips of
  an unlocked track. Both copies get the id \<open>undefined\<close>; the first copy is flagged twice
  and the second never, while \<open>undefined\<close> is among the selected ids: the flag of the
  second copy is false and its id is selected.
\<close>

theorem duplicateSelectedClips_breaks_selection:
  "map (\<lambda>c. (cid c, isSelected c)) (allClips (tracks (duplicateSelectedClips gen duplicateStore))) =
     [(Some ''a'', False), (Some ''b'', False), (None, True), (None, False)] \<and>
   selectedClipIds (duplicateSelectedClips gen duplicateStore) = [None]"
  by (simp add: duplicateSelectedClips_def duplicateStore_def selectedPositions_def
      clipPositions_def clipAt_def deselectAll_def clearFlags_def selectClip_def
      modifyClipById_def hasClip_def
      storeOf_def initialStore_def videoTrack_def videoClip_def allClips_def deepCopy_def
      addClip_def assign_def spread_def num_or_def Let_def upt_rec)

section \<open>Entrance and exit animations of a text\<close>

text \<open>
  Claim C9, amended. For a text that is visible at a time, the entrance effect is applied
  first and the exit effect is applied to its result, also at the times inside both
  animation windows: the alpha is the product of the alpha of the entrance alone and the
  alpha of the exit alone, the vertical offsets of the two add up, the content is the one
  the entrance leaves, and the horizontal position is the one of the overlay. Only the
  scale is decided by the exit alone, and only when the exit animation is a scale inside
  its window; otherwise the scale is the one the entrance leaves. In particular, when a
  fade in and a fade out overlap, the alpha is the entrance progress times one minus the
  exit progress.
\<close>

theorem overlapping_animations_compose:
  assumes "o_startTime ov \<le> now" and "now \<le> o_endTime ov"
  shows "alpha (animateText now (Some ov) obj) =
           alpha (animateText now (Some (ov\<lparr>animationOut := None\<rparr>)) obj) *
           alpha (animateText now (Some (ov\<lparr>animationIn := None\<rparr>)) obj) \<and>
         pos_y (animateText now (Some ov) obj) - o_y ov =
           (pos_y (animateText now (Some (ov\<lparr>animationOut := None\<rparr>)) obj) - o_y ov) +
           (pos_y (animateText now (Some (ov\<lparr>animationIn := None\<rparr>)) obj) - o_y ov) \<and>
         pos_x (animateText now (Some ov) obj) = o_x ov \<and>
         content (animateText now (Some ov) obj) =
           content (animateText now (Some (ov\<lparr>animationOut := None\<rparr>)) obj) \<and>
         scaleX (animateText now (Some ov) obj) =
           (if \<exists>a. animationOut ov = Some a \<and> a_type a = Scale \<and> o_endTime ov - now < a_duration a
            then scaleX (animateText now (Some (ov\<lparr>animationIn := None\<rparr>)) obj)
            else scaleX (animateText now (Some (ov\<lparr>animationOut := None\<rparr>)) obj)) \<and>
         scaleY (animateText now (Some ov) obj) = scaleX (animateText now (Some ov) obj) \<and>
         visible (animateText now (Some ov) obj) \<and>
         (\<forall>a b. animationIn ov = Some a \<and> a_type a = Fade \<and> now - o_startTime ov < a_duration a \<and>
                animationOut ov = Some b \<and> a_type b = Fade \<and> o_endTime ov - now < a_duration b \<longrightarrow>
            alpha (animateText now (Some ov) obj) =
              ((now - o_startTime ov) / a_duration a) *
              (1 - (a_duration b - (o_endTime ov - now)) / a_duration b))"
proof -
  have fade: "\<And>a b. animationIn ov = Some a \<Longrightarrow> a_type a = Fade \<Longrightarrow>
      now - o_startTime ov < a_duration a \<Longrightarrow> animationOut ov = Some b \<Longrightarrow> a_type b = Fade \<Longrightarrow>
      o_endTime ov - now < a_duration b \<Longrightarrow>
      alpha (animateText now (Some ov) obj) =
        ((now - o_startTime ov) / a_duration a) *
        (1 - (a_duration b - (o_endTime ov - now)) / a_duration b)"
  proof -
    fix a b
    assume a: "animationIn ov = Some a" "a_type a = Fade" "now - o_startTime ov < a_duration a"
      and b: "animationOut ov = Some b" "a_type b = Fade" "o_endTime ov - now < a_duration b"
    have pa: "clamp01 ((now - o_startTime ov) / a_duration a) = (now - o_startTime ov) / a_duration a"
      using a(3) assms(1) by (simp add: clamp01_def min_def max_def)
    have "0 < a_duration b"
      using b(3) assms(2) by simp
    then have pb: "clamp01 ((a_duration b - (o_endTime ov - now)) / a_duration b) =
        (a_duration b - (o_endTime ov - now)) / a_duration b"
      using b(3) assms(2) by (simp add: clamp01_def min_def max_def)
    show "alpha (animateText now (Some ov) obj) =
        ((now - o_startTime ov) / a_duration a) *
        (1 - (a_duration b - (o_endTime ov - now)) / a_duration b)"
      using assms a b by (simp add: animateText_def applyIn_def applyOut_def Let_def pa pb)
  qed
  define base where "base =
      \<lparr> visible = True, alpha = (if o_isSelected ov then 1 else 1), pos_x = o_x ov, pos_y = o_y ov,
        scaleX = 1, scaleY = 1, content = o_text ov \<rparr>"
  have b: "alpha base = 1" "pos_y base = o_y ov" "pos_x base = o_x ov" "scaleY base = scaleX base"
    "visible base"
    by (simp_all add: base_def)
  have r: "animateText now (Some ov) obj = applyOut now ov (applyIn now ov base)"
    using assms by (simp add: animateText_def base_def)
  have rin: "animateText now (Some (ov\<lparr>animationOut := None\<rparr>)) obj = applyIn now ov base"
    using assms by (simp add: animateText_def base_def)
  have rout: "animateText now (Some (ov\<lparr>animationIn := None\<rparr>)) obj = applyOut now ov base"
    using assms by (simp add: animateText_def base_def)
  have a1: "alpha (applyOut now ov (applyIn now ov base)) =
      alpha (applyIn now ov base) * alpha (applyOut now ov base)"
    using b(1) by (rule applyOut_alpha)
  have a2: "pos_y (applyOut now ov (applyIn now ov base)) - o_y ov =
      (pos_y (applyIn now ov base) - o_y ov) + (pos_y (applyOut now ov base) - o_y ov)"
    using applyOut_pos_y [of now ov "applyIn now ov base" base] b(2) by simp
  have a3: "pos_x (applyOut now ov (applyIn now ov base)) = o_x ov"
    using applyOut_keeps [of now ov "applyIn now ov base"] applyIn_keeps [of now ov base] b(3)
    by simp
  have a4: "content (applyOut now ov (applyIn now ov base)) = content (applyIn now ov base)"
    using applyOut_keeps [of now ov "applyIn now ov base"] by simp
  have a5: "scaleX (applyOut now ov (applyIn now ov base)) =
      (if \<exists>a. animationOut ov = Some a \<and> a_type a = Scale \<and> o_endTime ov - now < a_duration a
       then scaleX (applyOut now ov base) else scaleX (applyIn now ov base))"
    by (rule applyOut_scale)
  have "scaleY (applyIn now ov base) = scaleX (applyIn now ov base)"
    using applyIn_keeps [of now ov base] b(4) by simp
  then have a6: "scaleY (applyOut now ov (applyIn now ov base)) =
      scaleX (applyOut now ov (applyIn now ov base))"
    by (rule applyOut_scaleY)
  have a7: "visible (applyOut now ov (applyIn now ov base))"
    using applyOut_keeps [of now ov "applyIn now ov base"] applyIn_keeps [of now ov base] b(5)
    by simp
  have rest: "alpha (animateText now (Some ov) obj) =
           alpha (animateText now (Some (ov\<lparr>animationOut := None\<rparr>)) obj) *
           alpha (animateText now (Some (ov\<lparr>animationIn := None\<rparr>)) obj) \<and>
         pos_y (animateText now (Some ov) obj) - o_y ov =
           (pos_y (animateText now (Some (ov\<lparr>animationOut := None\<rparr>)) obj) - o_y ov) +
           (pos_y (animateText now (Some (ov\<lparr>animationIn := None\<rparr>)) obj) - o_y ov) \<and>
         pos_x (animateText now (Some ov) obj) = o_x ov \<and>
         content (animateText now (Some ov) obj) =
           content (animateText now (Some (ov\<lparr>animationOut := None\<rparr>)) obj) \<and>
         scaleX (animateText now (Some ov) obj) =
           (if \<exists>a. animationOut ov = Some a \<and> a_type a = Scale \<and> o_endTime ov - now < a_duration a
            then scaleX (animateText now (Some (ov\<lparr>animationIn := None\<rparr>)) obj)
            else scaleX (animateText now (Some (ov\<lparr>animationOut := None\<rparr>)) obj)) \<and>
         scaleY (animateText now (Some ov) obj) = scaleX (animateText now (Some ov) obj) \<and>
         visible (animateText now (Some ov) obj)"
    unfolding r rin rout using a1 a2 a3 a4 a5 a6 a7 by blast
  show ?thesis
    using rest fade by blast
qed

theorem overlapping_animations_compose_witness:
  "o_startTime fadeOverlay \<le> 1 / 2 \<and> 1 / 2 \<le> o_endTime fadeOverlay \<and>
   alpha (animateText (1 / 2) (Some fadeOverlay) someTextObj) = 1 / 4"
proof -
  have h1: "o_startTime fadeOverlay \<le> 1 / 2"
    by (simp add: fadeOverlay_def)
  have h2: "1 / 2 \<le> o_endTime fadeOverlay"
    by (simp add: fadeOverlay_def)
  have "alpha (animateText (1 / 2) (Some fadeOverlay) someTextObj) =
      ((1 / 2 - o_startTime fadeOverlay) / 1) * (1 - (1 - (o_endTime fadeOverlay - 1 / 2)) / 1)"
    using overlapping_animations_compose [OF h1 h2, of someTextObj]
    by (simp add: fadeOverlay_def)
  then show ?thesis
    using h1 h2 by (simp add: fadeOverlay_def)
qed

text \<open>
  Claim C9 as stated fails where a fade in and a fade out overlap: at 0.5, inside both
  windows of the overlay on [0, 1], the alpha is 0.25, while the exit alone gives 0.5.
\<close>

theorem exit_precedence_counterexample:
  "1 / 2 - o_startTime fadeOverlay < 1 \<and> o_endTime fadeOverlay - 1 / 2 < 1 \<and>
   alpha (animateText (1 / 2) (Some fadeOverlay) someTextObj) = 1 / 4 \<and>
   alpha (animateText (1 / 2) (Some (fadeOverlay\<lparr>animationIn := None\<rparr>)) someTextObj) = 1 / 2"
  by (simp add: fadeOverlay_def animateText_def applyIn_def applyOut_def clamp01_def Let_def)

section \<open>What undo and redo leave alone\<close>

text \<open>
  Claim C10. \<open>undo\<close> and \<open>redo\<close> write the tracks, the selected clip ids and the
  position in the history, which is private to the store, and nothing else: the
  clipboard, the playhead time, the playing flag, the timeline zoom, the aspect ratio
  and the history entries are as before, whether or not the call raises.
\<close>

theorem undo_redo_frame:
  "snd (undo s) = s\<lparr>tracks := tracks (snd (undo s)),
                     selectedClipIds := selectedClipIds (snd (undo s)),
                     historyIndex := historyIndex (snd (undo s))\<rparr> \<and>
   snd (redo s) = s\<lparr>tracks := tracks (snd (redo s)),
                     selectedClipIds := selectedClipIds (snd (redo s)),
                     historyIndex := historyIndex (snd (redo s))\<rparr> \<and>
   clipboard (snd (undo s)) = clipboard s \<and> clipboard (snd (redo s)) = clipboard s \<and>
   currentTime (snd (undo s)) = currentTime s \<and> currentTime (snd (redo s)) = currentTime s \<and>
   isPlaying (snd (undo s)) = isPlaying s \<and> isPlaying (snd (redo s)) = isPlaying s \<and>
   timelineZoom (snd (undo s)) = timelineZoom s \<and> timelineZoom (snd (redo s)) = timelineZoom s \<and>
   aspectRatio (snd (undo s)) = aspectRatio s \<and> aspectRatio (snd (redo s)) = aspectRatio s \<and>
   history (snd (undo s)) = history s \<and> history (snd (redo s)) = history s"
  by (simp add: undo_def redo_def Let_def split: option.splits)

end
